theory Spec2Isabelle
  imports Complex_Main "HOL-Library.Sublist" "HOL-Library.Char_ord" "HOL-Library.List_Lexorder"
begin

section \<open>JavaScript values used by the components\<close>

text \<open>
  A JavaScript string is modelled as a \<^typ>\<open>string\<close>, one \<^typ>\<open>char\<close> per code unit
  of the Latin-1 range. The built-ins \<open>trim\<close>, \<open>toLowerCase\<close> and \<open>includes\<close> are
  written out on that range: white space is TAB, LF, VT, FF, CR, SP and NBSP; the letters
  with a lower-case partner are A-Z and U+00C0-U+00DE without U+00D7.
\<close>

definition isWhiteSpace :: "char \<Rightarrow> bool" where
  "isWhiteSpace c = (of_char c \<in> set [9, 10, 11, 12, 13, 32, 160 :: nat])"

definition trim :: "string \<Rightarrow> string" where
  "trim s = rev (dropWhile isWhiteSpace (rev (dropWhile isWhiteSpace s)))"

definition lower_char :: "char \<Rightarrow> char" where
  "lower_char c =
     (let n = of_char c :: nat
      in if (65 \<le> n \<and> n \<le> 90) \<or> (192 \<le> n \<and> n \<le> 222 \<and> n \<noteq> 215)
         then char_of (n + 32) else c)"

definition toLowerCase :: "string \<Rightarrow> string" where
  "toLowerCase s = map lower_char s"

text \<open>\<open>s.includes(t)\<close>: some position of \<open>s\<close> starts a copy of \<open>t\<close>.\<close>

fun includes_str :: "string \<Rightarrow> string \<Rightarrow> bool" where
  "includes_str [] t = (t = [])"
| "includes_str (c # s) t = (prefix t (c # s) \<or> includes_str s t)"


section \<open>Rows of the remote \<open>lectures\<close> table\<close>

text \<open>
  A row as \<open>select('*')\<close> returns it. The components type it with their own \<open>Lecture\<close>
  interfaces, each naming the columns that component reads.
\<close>

record lecture =
  id :: string
  title :: string
  description :: "string option"
  transcript :: "string option"
  audio_url :: "string option"
  status :: string
  created_at :: string
  updated_at :: string
  teacher_id :: string


section \<open>LectureBrowser: the search filter\<close>

record browser_state =
  lectures :: "lecture list"
  filteredLectures :: "lecture list"
  loading :: bool
  searchTerm :: string

text \<open>The predicate of \<open>lectures.filter(...)\<close> in \<open>filterLectures\<close>.\<close>

definition matches :: "string \<Rightarrow> lecture \<Rightarrow> bool" where
  "matches needle l =
     (includes_str (toLowerCase (title l)) (toLowerCase needle) \<or>
      (case description l of
         None \<Rightarrow> False
       | Some d \<Rightarrow> d \<noteq> [] \<and> includes_str (toLowerCase d) (toLowerCase needle)))"

definition filterLectures :: "browser_state \<Rightarrow> browser_state" where
  "filterLectures s =
     (if trim (searchTerm s) = [] then s\<lparr>filteredLectures := lectures s\<rparr>
      else s\<lparr>filteredLectures := filter (matches (searchTerm s)) (lectures s)\<rparr>)"




section \<open>Properties of the string primitives\<close>









definition algebra_lecture :: lecture where
  "algebra_lecture =
     \<lparr>id = ''l1'', title = ''Linear ALGEBRA'', description = None, transcript = None,
      audio_url = None, status = ''published'', created_at = ''2024-01-02'',
      updated_at = ''2024-01-02'', teacher_id = ''t1''\<rparr>"

definition history_lecture :: lecture where
  "history_lecture =
     \<lparr>id = ''l2'', title = ''History'', description = Some ''Rome'', transcript = None,
      audio_url = None, status = ''published'', created_at = ''2024-01-01'',
      updated_at = ''2024-01-01'', teacher_id = ''t1''\<rparr>"



section \<open>formatFileSize\<close>

text \<open>Decimal digits of a natural number, as \<open>String(n)\<close> prints them.\<close>

definition digit_char :: "nat \<Rightarrow> char" where
  "digit_char d = ''0123456789'' ! d"

function show_nat :: "nat \<Rightarrow> string" where
  "show_nat n = (if n < 10 then [digit_char n] else show_nat (n div 10) @ [digit_char (n mod 10)])"
  by pat_completeness auto
termination
  by (relation "measure (\<lambda>n. n)") auto

declare show_nat.simps [simp del]

text \<open>
  \<open>formatFileSize\<close> (the same text in LectureViewer and in the multi-file LectureUpload).
  The argument is a file size, a natural number. JavaScript numbers are read as exact
  reals: \<open>Math.log\<close> is the natural logarithm, \<open>Math.floor\<close> the floor, \<open>Math.pow\<close>
  the power. On integers below \<open>2^53\<close> the quotient \<open>bytes / 1024^i\<close> is exact in a
  double as well, \<open>toFixed(2)\<close> rounds that exact value to hundredths (the larger one on
  a tie), and \<open>parseFloat\<close> followed by the conversion to a string drops trailing zeros.
  \<open>toFixed2\<close> returns the number of hundredths; \<open>number_str\<close> prints hundredths the way
  the number prints. \<open>sizes[i]\<close> out of range is \<open>undefined\<close>, which \<open>+\<close> prints as the
  word.
\<close>

definition sizes :: "string list" where
  "sizes = [''Bytes'', ''KB'', ''MB'', ''GB'']"

definition unit_index :: "nat \<Rightarrow> nat" where
  "unit_index bytes = nat \<lfloor>ln (real bytes) / ln (real 1024)\<rfloor>"

definition toFixed2 :: "real \<Rightarrow> nat" where
  "toFixed2 x = nat \<lfloor>x * 100 + 1 / 2\<rfloor>"

definition number_str :: "nat \<Rightarrow> string" where
  "number_str h =
     show_nat (h div 100) @
     (if h mod 100 = 0 then []
      else if h mod 10 = 0 then CHR ''.'' # [digit_char (h mod 100 div 10)]
      else CHR ''.'' # [digit_char (h mod 100 div 10), digit_char (h mod 10)])"

definition sizes_at :: "nat \<Rightarrow> string" where
  "sizes_at i = (if i < length sizes then sizes ! i else ''undefined'')"

definition formatFileSize :: "nat \<Rightarrow> string" where
  "formatFileSize bytes =
     (if bytes = 0 then ''0 Bytes''
      else let k = 1024 :: nat;
               i = unit_index bytes
           in number_str (toFixed2 (real bytes / real (k ^ i))) @ '' '' @ sizes_at i)"


text \<open>The number of characters after the decimal point of a printed number.\<close>

definition decimals :: "string \<Rightarrow> nat" where
  "decimals s = length (drop 1 (dropWhile (\<lambda>c. c \<noteq> CHR ''.'') s))"

lemma unit_index_eq:
  assumes "1024 ^ n \<le> b" "b < 1024 ^ Suc n"
  shows "unit_index b = n"
proof -
  have "\<lfloor>log (real 1024) (real b)\<rfloor> = int n"
    by (rule floor_log_nat_eq_if) (use assms in auto)
  then show ?thesis by (simp add: unit_index_def log_def)
qed

lemma unit_index_bounds:
  assumes "0 < b"
  shows "1024 ^ unit_index b \<le> b \<and> b < 1024 ^ Suc (unit_index b)"
proof -
  have "0 \<le> log (real 1024) (real b)"
    using assms by (simp add: zero_le_log_cancel_iff)
  then have "\<lfloor>log (real 1024) (real b)\<rfloor> = int (nat \<lfloor>log (real 1024) (real b)\<rfloor>)"
    by simp
  then have "1024 ^ nat \<lfloor>log (real 1024) (real b)\<rfloor> \<le> b \<and>
             b < 1024 ^ (nat \<lfloor>log (real 1024) (real b)\<rfloor> + 1)"
    using assms floor_log_nat_eq_powr_iff [of 1024 b "nat \<lfloor>log (real 1024) (real b)\<rfloor>"]
    by simp
  then show ?thesis by (simp add: unit_index_def log_def)
qed

lemma unit_index_in_range:
  assumes "0 < b" "b < 1024 ^ 4"
  shows "unit_index b < length sizes"
proof -
  have "(1024::nat) ^ unit_index b < 1024 ^ 4"
    using unit_index_bounds [OF assms(1)] assms(2) by linarith
  then have "unit_index b < 4"
    by (rule power_less_imp_less_exp [rotated]) simp
  then show ?thesis by (simp add: sizes_def)
qed

lemma unit_index_out_of_range:
  assumes "1024 ^ 4 \<le> b"
  shows "length sizes \<le> unit_index b"
proof -
  have "0 < b" using assms by (cases "b = 0") auto
  then have "(1024::nat) ^ 4 < 1024 ^ Suc (unit_index b)"
    using unit_index_bounds [of b] assms by linarith
  then have "4 < Suc (unit_index b)"
    by (rule power_less_imp_less_exp [rotated]) simp
  then show ?thesis by (simp add: sizes_def)
qed

lemma toFixed2_close:
  assumes "0 \<le> x"
  shows "\<bar>real (toFixed2 x) / 100 - x\<bar> \<le> 1 / 200"
proof -
  have nn: "0 \<le> \<lfloor>x * 100 + 1 / 2\<rfloor>" using assms by simp
  have "real_of_int \<lfloor>x * 100 + 1 / 2\<rfloor> \<le> x * 100 + 1 / 2"
       "x * 100 + 1 / 2 < real_of_int \<lfloor>x * 100 + 1 / 2\<rfloor> + 1"
    by linarith+
  moreover have "real (toFixed2 x) = real_of_int \<lfloor>x * 100 + 1 / 2\<rfloor>"
    using nn by (simp add: toFixed2_def)
  ultimately have "real (toFixed2 x) / 100 - x \<le> 1 / 200" "x - real (toFixed2 x) / 100 \<le> 1 / 200"
    by linarith+
  then show ?thesis unfolding abs_le_iff by linarith
qed

lemma show_nat_no_point: "CHR ''.'' \<notin> set (show_nat n)"
proof (induction n rule: show_nat.induct)
  case (1 n)
  have d: "digit_char k \<noteq> CHR ''.''" if "k < 10" for k
  proof -
    from that have "k \<in> {0,1,2,3,4,5,6,7,8,9}" by auto
    then show ?thesis by (auto simp: digit_char_def)
  qed
  note d' = d [THEN not_sym]
  show ?case
  proof (cases "n < 10")
    case True
    then show ?thesis by (subst show_nat.simps) (simp add: d')
  next
    case False
    then show ?thesis using 1 by (subst show_nat.simps) (simp add: d')
  qed
qed

lemma decimals_number_str: "decimals (number_str h) \<le> 2"
proof -
  have "dropWhile (\<lambda>c. c \<noteq> CHR ''.'') (show_nat n @ r) = dropWhile (\<lambda>c. c \<noteq> CHR ''.'') r" for n r
    using show_nat_no_point [of n] by (simp add: dropWhile_append)
  then show ?thesis by (simp add: decimals_def number_str_def)
qed

lemma unit_index_rec:
  "unit_index b = (if b < 1024 then 0 else Suc (unit_index (b div 1024)))"
proof (cases "b < 1024")
  case True
  show ?thesis
  proof (cases "b = 0")
    case True
    then show ?thesis by (simp add: unit_index_def)
  next
    case False
    with \<open>b < 1024\<close> have "unit_index b = 0" by (intro unit_index_eq) auto
    with \<open>b < 1024\<close> show ?thesis by simp
  qed
next
  case False
  then have pos: "0 < b div 1024" by (simp add: div_greater_zero_iff)
  let ?n = "unit_index (b div 1024)"
  have "1024 ^ ?n \<le> b div 1024" "b div 1024 < 1024 ^ Suc ?n"
    using unit_index_bounds [OF pos] by blast+
  then have "1024 ^ Suc ?n \<le> b" "b < 1024 ^ Suc (Suc ?n)"
    by (simp_all add: less_eq_div_iff_mult_less_eq div_less_iff_less_mult)
  then have "unit_index b = Suc ?n" by (rule unit_index_eq)
  with False show ?thesis by simp
qed

text \<open>
  Claim C10. \<open>formatFileSize 0\<close> is \<open>0 Bytes\<close>. For \<open>1 \<le> b < 1024^4\<close> the unit index
  \<open>i\<close> is the floor of the base-1024 logarithm of \<open>b\<close> (\<open>1024^i \<le> b < 1024^(i+1)\<close>), it
  is an index of \<open>sizes\<close>, and the result is \<open>b / 1024^i\<close> rounded to hundredths, printed
  with at most two decimals, a space and \<open>sizes[i]\<close>. For \<open>b \<ge> 1024^4\<close> the index is
  outside \<open>sizes\<close> and the result ends in \<open>undefined\<close>.
\<close>

theorem formatFileSize_units:
  "formatFileSize 0 = ''0 Bytes'' \<and>
   (1 \<le> b \<and> b < 1024 ^ 4 \<longrightarrow>
      (let i = unit_index b; x = real b / real (1024 ^ i)
       in i < length sizes \<and> 1024 ^ i \<le> b \<and> b < 1024 ^ Suc i \<and>
          formatFileSize b = number_str (toFixed2 x) @ '' '' @ sizes ! i \<and>
          \<bar>real (toFixed2 x) / 100 - x\<bar> \<le> 1 / 200 \<and>
          decimals (number_str (toFixed2 x)) \<le> 2)) \<and>
   (1024 ^ 4 \<le> b \<longrightarrow>
      length sizes \<le> unit_index b \<and> sizes_at (unit_index b) = ''undefined'' \<and>
      (\<exists>n. formatFileSize b = n @ '' undefined''))"
proof (intro conjI impI)
  show "formatFileSize 0 = ''0 Bytes''" by (simp add: formatFileSize_def)
next
  assume b: "1 \<le> b \<and> b < 1024 ^ 4"
  then have pos: "0 < b" by simp
  have r: "unit_index b < length sizes" using unit_index_in_range pos b by blast
  show "let i = unit_index b; x = real b / real (1024 ^ i)
       in i < length sizes \<and> 1024 ^ i \<le> b \<and> b < 1024 ^ Suc i \<and>
          formatFileSize b = number_str (toFixed2 x) @ '' '' @ sizes ! i \<and>
          \<bar>real (toFixed2 x) / 100 - x\<bar> \<le> 1 / 200 \<and>
          decimals (number_str (toFixed2 x)) \<le> 2"
    unfolding Let_def
  proof (intro conjI)
    show "unit_index b < length sizes" by (rule r)
    show "1024 ^ unit_index b \<le> b" "b < 1024 ^ Suc (unit_index b)"
      using unit_index_bounds [OF pos] by blast+
    show "formatFileSize b =
        number_str (toFixed2 (real b / real (1024 ^ unit_index b))) @ '' '' @ sizes ! unit_index b"
      using pos r by (simp add: formatFileSize_def sizes_at_def Let_def)
    show "\<bar>real (toFixed2 (real b / real (1024 ^ unit_index b))) / 100 -
          real b / real (1024 ^ unit_index b)\<bar> \<le> 1 / 200"
      by (rule toFixed2_close) simp
    show "decimals (number_str (toFixed2 (real b / real (1024 ^ unit_index b)))) \<le> 2"
      by (rule decimals_number_str)
  qed
next
  assume b: "1024 ^ 4 \<le> b"
  show out: "length sizes \<le> unit_index b" by (rule unit_index_out_of_range [OF b])
  then show u: "sizes_at (unit_index b) = ''undefined''" by (simp add: sizes_at_def)
  have "b \<noteq> 0" using b by (cases "b = 0") auto
  then have "formatFileSize b =
      number_str (toFixed2 (real b / real (1024 ^ unit_index b))) @ '' undefined''"
    using u by (simp add: formatFileSize_def Let_def)
  then show "\<exists>n. formatFileSize b = n @ '' undefined''" by blast
qed

theorem formatFileSize_units_witness:
  "formatFileSize 0 = ''0 Bytes'' \<and> unit_index 1536 = 1 \<and>
   formatFileSize 1536 = ''1.5 KB'' \<and> formatFileSize 1152 = ''1.13 KB'' \<and>
   unit_index (1024 ^ 4) = 4 \<and> formatFileSize (1024 ^ 4) = ''1 undefined''"
proof -
  have i: "unit_index 1536 = 1" "unit_index 1152 = 1" "unit_index (1024 ^ 4) = 4"
    by (rule unit_index_eq; simp)+
  have "formatFileSize 1536 = ''1.5 KB''"
    using formatFileSize_units [of 1536] i(1)
    by (simp add: Let_def toFixed2_def number_str_def show_nat.simps digit_char_def sizes_def)
  moreover have "formatFileSize 1152 = ''1.13 KB''"
    using formatFileSize_units [of 1152] i(2)
    by (simp add: Let_def toFixed2_def number_str_def show_nat.simps digit_char_def sizes_def)
  moreover have "formatFileSize (1024 ^ 4) = ''1 undefined''"
  proof -
    from formatFileSize_units [of "1024 ^ 4"]
    have "sizes_at (unit_index (1024 ^ 4)) = ''undefined''" by simp
    with i(3) show ?thesis
      by (simp add: formatFileSize_def Let_def toFixed2_def number_str_def show_nat.simps
          digit_char_def)
  qed
  moreover have "formatFileSize 0 = ''0 Bytes''"
    using formatFileSize_units [of 0] by simp
  ultimately show ?thesis using i by simp
qed


section \<open>LectureUpload (multi-file): state, environment and effects\<close>

text \<open>
  The component of \<open>src/unnamed/part_001\<close>. Its React state and refs are one record; the
  state variables \<open>title\<close>, \<open>description\<close> and \<open>transcript\<close> are \<open>form_title\<close>,
  \<open>form_description\<close> and \<open>form_transcript\<close> here, apart from the columns of a row.
  \<open>fileInput\<close> is the value of the file input behind \<open>fileInputRef\<close> (\<open>None\<close>: the
  ref is null).
\<close>

record blob =
  btype :: string
  bsize :: nat
  bdata :: string

record js_file =
  fname :: string
  ftype :: string
  fsize :: nat
  fdata :: string

record upload_state =
  form_title :: string
  form_description :: string
  isRecording :: bool
  uploadedFiles :: "js_file list"
  audioBlob :: "blob option"
  audioUrl :: "string option"
  uploading :: bool
  uploadProgress :: real
  form_transcript :: string
  isListening :: bool
  chunks :: "blob list"
  fileInput :: "string option"

text \<open>
  The object literal handed to \<open>insert\<close> or \<open>update\<close> is a list of keys and values.
  An awaited call of the remote service resolves to \<open>{data, error}\<close> with exactly one
  of them set (\<open>Ok\<close>, \<open>Err\<close>), or its promise rejects (\<open>Rejected\<close>).
\<close>

datatype jsval = JUndefined | JNull | JStr string

type_synonym payload = "(string \<times> jsval) list"

datatype 'a outcome = Ok 'a | Err string | Rejected string

text \<open>
  What a handler does to the outside, in order: toasts (title, description, destructive),
  the calls of the remote service, \<open>console.error\<close>, and the calls of \<open>setUploading\<close>
  and \<open>setUploadProgress\<close>. Every upload passes the same options
  \<open>{cacheControl: '3600', upsert: false}\<close> to the bucket \<open>lecture-files\<close>.
\<close>

datatype effect =
    Toast string string bool
  | Insert payload
  | Upload string js_file
  | GetPublicUrl string
  | Update string payload
  | ConsoleError string
  | SetUploading bool
  | SetUploadProgress real

text \<open>
  The world a submit runs in: the signed-in user's id, the readings of \<open>Date.now()\<close> in
  the order they are taken, and what the remote service answers. \<open>upload_result\<close> takes
  the number of uploads already made, so the same request may be answered differently
  at different times. \<open>getPublicUrl\<close> builds a URL locally and cannot fail.
\<close>

record env =
  user :: "string option"
  now :: "nat \<Rightarrow> nat"
  insert_result :: "payload \<Rightarrow> lecture outcome"
  upload_result :: "nat \<Rightarrow> string \<Rightarrow> js_file \<Rightarrow> string outcome"
  public_url :: "string \<Rightarrow> string"
  update_result :: "string \<Rightarrow> payload \<Rightarrow> unit outcome"

text \<open>The template \<open>`${lecture.id}/${Date.now()}-${file.name}`\<close> at clock reading \<open>k\<close>.\<close>

definition fileName :: "env \<Rightarrow> string \<Rightarrow> nat \<Rightarrow> js_file \<Rightarrow> string" where
  "fileName env lid k f = lid @ ''/'' @ show_nat (now env k) @ ''-'' @ fname f"

text \<open>
  The \<open>for\<close> loop over \<open>fileUploads\<close>: one awaited upload per index, a \<open>throw\<close> on the
  first error, else the path is pushed and the progress set. \<open>Inl\<close> is the thrown error.
\<close>

function upload_loop ::
  "env \<Rightarrow> string \<Rightarrow> nat \<Rightarrow> js_file list \<Rightarrow> nat \<Rightarrow> string list \<Rightarrow> effect list
     \<Rightarrow> (string + string list) \<times> effect list" where
  "upload_loop env lid base fileUploads i uploadedUrls tr =
     (if i < length fileUploads then
        (let f = fileUploads ! i;
             fileName = fileName env lid (base + i) f;
             tr1 = tr @ [Upload fileName f]
         in case upload_result env i fileName f of
              Ok path \<Rightarrow>
                upload_loop env lid base fileUploads (Suc i) (uploadedUrls @ [path])
                  (tr1 @ [SetUploadProgress
                            (30 + (real (i + 1) / real (length fileUploads)) * 60)])
            | Err e \<Rightarrow> (Inl e, tr1)
            | Rejected e \<Rightarrow> (Inl e, tr1))
      else (Inr uploadedUrls, tr))"
  by pat_completeness auto
termination
  by (relation "measure (\<lambda>(env, lid, base, fileUploads, i, uploadedUrls, tr).
        length fileUploads - i)") auto

declare upload_loop.simps [simp del]


text \<open>\<open>a || null\<close> in the inserted row: the empty string is falsy.\<close>

definition js_or_null :: "string \<Rightarrow> jsval" where
  "js_or_null v = (if v = [] then JNull else JStr v)"

definition insert_row :: "env \<Rightarrow> upload_state \<Rightarrow> payload" where
  "insert_row env s =
     [(''teacher_id'', case user env of None \<Rightarrow> JUndefined | Some uid \<Rightarrow> JStr uid),
      (''title'', JStr (trim (form_title s))),
      (''description'', js_or_null (trim (form_description s))),
      (''transcript'', js_or_null (trim (form_transcript s))),
      (''status'', JStr ''draft'')]"

text \<open>
  The recorded audio becomes a blob of type \<open>audio/webm\<close> with a \<open>name\<close> property; it
  takes the first clock reading. The selected files follow it.
\<close>

definition audioFileForUpload :: "env \<Rightarrow> blob \<Rightarrow> js_file" where
  "audioFileForUpload env b =
     \<lparr>fname = ''recording-'' @ show_nat (now env 0) @ ''.webm'',
      ftype = ''audio/webm'', fsize = bsize b, fdata = bdata b\<rparr>"

definition fileUploads :: "env \<Rightarrow> upload_state \<Rightarrow> js_file list" where
  "fileUploads env s =
     (case audioBlob s of None \<Rightarrow> [] | Some b \<Rightarrow> [audioFileForUpload env b]) @
     uploadedFiles s"

definition clock_base :: "upload_state \<Rightarrow> nat" where
  "clock_base s = (case audioBlob s of None \<Rightarrow> 0 | Some b \<Rightarrow> 1)"

text \<open>
  The step after the loop: the public URL of the first uploaded path is written to the
  row's \<open>audio_url\<close>. The result of the awaited \<open>update\<close> is not read; only a rejected
  promise reaches the \<open>catch\<close>.
\<close>

definition set_audio_url :: "env \<Rightarrow> string \<Rightarrow> string list \<Rightarrow> string option \<times> effect list" where
  "set_audio_url env lid uploadedUrls =
     (if length uploadedUrls > 0 then
        (let publicUrl = public_url env (uploadedUrls ! 0);
             upd = [(''audio_url'', JStr publicUrl)]
         in (case update_result env lid upd of
               Rejected e \<Rightarrow> Some e
             | Ok u \<Rightarrow> None
             | Err e \<Rightarrow> None,
             [GetPublicUrl (uploadedUrls ! 0), Update lid upd]))
      else (None, []))"

definition reset_form :: "upload_state \<Rightarrow> upload_state" where
  "reset_form s =
     s\<lparr>form_title := [], form_description := [], uploadedFiles := [], audioBlob := None,
       audioUrl := None, form_transcript := [],
       fileInput := (case fileInput s of None \<Rightarrow> None | Some v \<Rightarrow> Some [])\<rparr>"

definition success_toast :: effect where
  "success_toast =
     Toast ''Lecture uploaded successfully!''
       ''Your lecture has been saved as a draft. You can publish it from the lecture management page.''
       False"

definition failure_toast :: effect where
  "failure_toast =
     Toast ''Upload failed''
       ''There was an error uploading your lecture. Please try again.'' True"

text \<open>The \<open>try\<close> block: \<open>Inl\<close> is what it throws, \<open>Inr\<close> the state after the form reset.\<close>

definition submit_try :: "env \<Rightarrow> upload_state \<Rightarrow> (string + upload_state) \<times> effect list" where
  "submit_try env s =
     (let row = insert_row env s
      in case insert_result env row of
           Err e \<Rightarrow> (Inl e, [Insert row])
         | Rejected e \<Rightarrow> (Inl e, [Insert row])
         | Ok lecture \<Rightarrow>
             (case upload_loop env (id lecture) (clock_base s) (fileUploads env s) 0 []
                     [Insert row, SetUploadProgress 30] of
                (Inl e, tr) \<Rightarrow> (Inl e, tr)
              | (Inr uploadedUrls, tr) \<Rightarrow>
                  (case set_audio_url env (id lecture) uploadedUrls of
                     (Some e, tr') \<Rightarrow> (Inl e, tr @ tr')
                   | (None, tr') \<Rightarrow>
                       (Inr (reset_form s),
                        tr @ tr' @ [SetUploadProgress 100, success_toast]))))"

text \<open>
  \<open>handleSubmit\<close>: the two guards return early; otherwise the \<open>try\<close> block runs between
  \<open>setUploading(true); setUploadProgress(0)\<close> and the \<open>finally\<close> block, with the \<open>catch\<close>
  block in between when it throws.
\<close>

definition handleSubmit :: "env \<Rightarrow> upload_state \<Rightarrow> upload_state \<times> effect list" where
  "handleSubmit env s =
     (if trim (form_title s) = [] then
        (s, [Toast ''Title required'' ''Please enter a title for your lecture'' True])
      else if length (uploadedFiles s) = 0 \<and> audioBlob s = None then
        (s, [Toast ''Content required''
               ''Please record audio or upload files for your lecture'' True])
      else
        (case submit_try env s of
           (Inr s', tr) \<Rightarrow>
             (s'\<lparr>uploading := False, uploadProgress := 0\<rparr>,
              [SetUploading True, SetUploadProgress 0] @ tr @
              [SetUploading False, SetUploadProgress 0])
         | (Inl e, tr) \<Rightarrow>
             (s\<lparr>uploading := False, uploadProgress := 0\<rparr>,
              [SetUploading True, SetUploadProgress 0] @ tr @
              [ConsoleError e, failure_toast] @
              [SetUploading False, SetUploadProgress 0])))"

subsection \<open>The upload loop in closed form\<close>

text \<open>
  \<open>attempt j\<close> is the answer to the \<open>j\<close>-th upload of the loop, \<open>first_failure i\<close> the
  first index from \<open>i\<close> on whose upload does not succeed.
\<close>

definition attempt :: "env \<Rightarrow> string \<Rightarrow> nat \<Rightarrow> js_file list \<Rightarrow> nat \<Rightarrow> string outcome" where
  "attempt env lid base fs j =
     upload_result env j (fileName env lid (base + j) (fs ! j)) (fs ! j)"

fun succeeded :: "'a outcome \<Rightarrow> bool" where
  "succeeded (Ok v) = True"
| "succeeded (Err e) = False"
| "succeeded (Rejected e) = False"

fun path_of :: "string outcome \<Rightarrow> string" where
  "path_of (Ok p) = p"
| "path_of (Err e) = []"
| "path_of (Rejected e) = []"

fun error_of :: "'a outcome \<Rightarrow> string" where
  "error_of (Ok v) = []"
| "error_of (Err e) = e"
| "error_of (Rejected e) = e"

definition upload_call :: "env \<Rightarrow> string \<Rightarrow> nat \<Rightarrow> js_file list \<Rightarrow> nat \<Rightarrow> effect" where
  "upload_call env lid base fs j = Upload (fileName env lid (base + j) (fs ! j)) (fs ! j)"

definition progress_at :: "nat \<Rightarrow> nat \<Rightarrow> real" where
  "progress_at n j = 30 + (real (j + 1) / real n) * 60"

definition first_failure :: "env \<Rightarrow> string \<Rightarrow> nat \<Rightarrow> js_file list \<Rightarrow> nat \<Rightarrow> nat option" where
  "first_failure env lid base fs i =
     find (\<lambda>j. \<not> succeeded (attempt env lid base fs j)) [i..<length fs]"

lemma first_failure_step:
  "i < length fs \<Longrightarrow>
   first_failure env lid base fs i =
     (if succeeded (attempt env lid base fs i) then first_failure env lid base fs (Suc i)
      else Some i)"
  by (simp add: first_failure_def upt_conv_Cons)

lemma first_failure_done: "\<not> i < length fs \<Longrightarrow> first_failure env lid base fs i = None"
  by (simp add: first_failure_def)

lemma first_failure_bounds:
  "first_failure env lid base fs i = Some k \<Longrightarrow>
   i \<le> k \<and> k < length fs \<and> \<not> succeeded (attempt env lid base fs k)"
  unfolding first_failure_def find_Some_iff by (auto simp: nth_upt)

lemma upload_loop_closed:
  "upload_loop env lid base fs i urls tr =
     (case first_failure env lid base fs i of
        None \<Rightarrow>
          (Inr (urls @ map (\<lambda>j. path_of (attempt env lid base fs j)) [i..<length fs]),
           tr @ concat (map (\<lambda>j. [upload_call env lid base fs j,
                                    SetUploadProgress (progress_at (length fs) j)])
                          [i..<length fs]))
      | Some k \<Rightarrow>
          (Inl (error_of (attempt env lid base fs k)),
           tr @ concat (map (\<lambda>j. [upload_call env lid base fs j,
                                    SetUploadProgress (progress_at (length fs) j)])
                          [i..<k]) @
           [upload_call env lid base fs k]))"
proof (induction env lid base fs i urls tr rule: upload_loop.induct)
  case (1 env lid base fs i urls tr)
  show ?case
  proof (cases "i < length fs")
    case False
    then show ?thesis
      by (subst upload_loop.simps) (simp add: first_failure_done)
  next
    case True
    show ?thesis
    proof (cases "attempt env lid base fs i")
      case (Ok path)
      then have ur: "upload_result env i (fileName env lid (base + i) (fs ! i)) (fs ! i) = Ok path"
        by (simp add: attempt_def)
      note IH = "1.IH" [OF True refl refl refl ur, folded upload_call_def progress_at_def]
      have ff: "first_failure env lid base fs i = first_failure env lid base fs (Suc i)"
        using True Ok by (simp add: first_failure_step)
      have "upload_loop env lid base fs i urls tr =
          upload_loop env lid base fs (Suc i) (urls @ [path])
            ((tr @ [Upload (fileName env lid (base + i) (fs ! i)) (fs ! i)]) @
             [SetUploadProgress (30 + (real (i + 1) / real (length fs)) * 60)])"
        by (subst upload_loop.simps) (simp only: True ur if_True Let_def outcome.case)
      note unfold = this [folded upload_call_def progress_at_def]
      show ?thesis
      proof (cases "first_failure env lid base fs (Suc i)")
        case None
        then show ?thesis
          using True Ok unfold IH ff by (simp add: upt_conv_Cons)
      next
        case (Some k)
        then have "Suc i \<le> k" using first_failure_bounds by blast
        then have "[i..<k] = i # [Suc i..<k]" by (simp add: upt_conv_Cons)
        then show ?thesis
          using True Ok unfold IH ff Some by simp
      qed
    next
      case (Err e)
      then have ur: "upload_result env i (fileName env lid (base + i) (fs ! i)) (fs ! i) = Err e"
        by (simp add: attempt_def)
      have "first_failure env lid base fs i = Some i"
        using True Err by (simp add: first_failure_step)
      then show ?thesis
        using True ur Err
        by (subst upload_loop.simps) (simp add: Let_def upload_call_def)
    next
      case (Rejected e)
      then have ur: "upload_result env i (fileName env lid (base + i) (fs ! i)) (fs ! i) = Rejected e"
        by (simp add: attempt_def)
      have "first_failure env lid base fs i = Some i"
        using True Rejected by (simp add: first_failure_step)
      then show ?thesis
        using True ur Rejected
        by (subst upload_loop.simps) (simp add: Let_def upload_call_def)
    qed
  qed
qed

subsection \<open>Reading a trace\<close>

text \<open>
  Projections of a trace: the upload calls with their arguments, the values given to
  \<open>setUploadProgress\<close>, the calls of the remote service, the writes to the table.
  \<open>steps\<close> is what the loop adds for the indices \<open>js\<close> when their uploads succeed.
\<close>

fun upload_calls :: "effect list \<Rightarrow> (string \<times> js_file) list" where
  "upload_calls [] = []"
| "upload_calls (Upload n f # tr) = (n, f) # upload_calls tr"
| "upload_calls (e # tr) = upload_calls tr"

fun progress_values :: "effect list \<Rightarrow> real list" where
  "progress_values [] = []"
| "progress_values (SetUploadProgress p # tr) = p # progress_values tr"
| "progress_values (e # tr) = progress_values tr"

fun is_remote :: "effect \<Rightarrow> bool" where
  "is_remote (Insert p) = True"
| "is_remote (Upload n f) = True"
| "is_remote (GetPublicUrl p) = True"
| "is_remote (Update i p) = True"
| "is_remote e = False"

fun is_table_write :: "effect \<Rightarrow> bool" where
  "is_table_write (Insert p) = True"
| "is_table_write (Update i p) = True"
| "is_table_write e = False"

definition steps :: "env \<Rightarrow> string \<Rightarrow> nat \<Rightarrow> js_file list \<Rightarrow> nat list \<Rightarrow> effect list" where
  "steps env lid base fs js =
     concat (map (\<lambda>j. [upload_call env lid base fs j,
                          SetUploadProgress (progress_at (length fs) j)]) js)"

lemma upload_calls_append [simp]: "upload_calls (a @ b) = upload_calls a @ upload_calls b"
  by (induction a rule: upload_calls.induct) auto

lemma progress_values_append [simp]:
  "progress_values (a @ b) = progress_values a @ progress_values b"
  by (induction a rule: progress_values.induct) auto

lemma upload_calls_steps:
  "upload_calls (steps env lid base fs js) =
     map (\<lambda>j. (fileName env lid (base + j) (fs ! j), fs ! j)) js"
  by (induction js) (auto simp: steps_def upload_call_def)

lemma progress_values_steps:
  "progress_values (steps env lid base fs js) = map (progress_at (length fs)) js"
  by (induction js) (auto simp: steps_def upload_call_def)

lemma filter_steps_table_write: "filter is_table_write (steps env lid base fs js) = []"
  by (induction js) (auto simp: steps_def upload_call_def)

lemma steps_no_toast: "Toast a b c \<notin> set (steps env lid base fs js)"
  by (induction js) (auto simp: steps_def upload_call_def)

lemma map_nth_upt_take: "n \<le> length xs \<Longrightarrow> map (\<lambda>j. xs ! j) [0..<n] = take n xs"
  by (induction n) (simp_all add: take_Suc_conv_app_nth)

lemma first_failure_NoneI:
  "(\<And>j. j < length fs \<Longrightarrow> succeeded (attempt env lid base fs j)) \<Longrightarrow>
   first_failure env lid base fs 0 = None"
  by (auto simp: first_failure_def find_None_iff)

lemma first_failure_SomeI:
  assumes "k < length fs" "\<And>j. j < k \<Longrightarrow> succeeded (attempt env lid base fs j)"
    "\<not> succeeded (attempt env lid base fs k)"
  shows "first_failure env lid base fs 0 = Some k"
  unfolding first_failure_def find_Some_iff
  using assms by (intro exI [of _ k]) auto

lemma first_failure_None_all:
  "first_failure env lid base fs 0 = None \<Longrightarrow> j < length fs \<Longrightarrow>
   succeeded (attempt env lid base fs j)"
  by (auto simp: first_failure_def find_None_iff)

text \<open>A form that passes both guards of \<open>handleSubmit\<close>.\<close>

definition valid_form :: "upload_state \<Rightarrow> bool" where
  "valid_form s = (trim (form_title s) \<noteq> [] \<and> (uploadedFiles s \<noteq> [] \<or> audioBlob s \<noteq> None))"

lemma fileUploads_nonempty: "valid_form s \<Longrightarrow> fileUploads env s \<noteq> []"
  by (auto simp: valid_form_def fileUploads_def split: option.splits)

lemma handleSubmit_failed_upload:
  assumes "valid_form s" "insert_result env (insert_row env s) = Ok lec"
    "first_failure env (id lec) (clock_base s) (fileUploads env s) 0 = Some k"
  shows "handleSubmit env s =
     (s\<lparr>uploading := False, uploadProgress := 0\<rparr>,
      [SetUploading True, SetUploadProgress 0, Insert (insert_row env s), SetUploadProgress 30] @
      steps env (id lec) (clock_base s) (fileUploads env s) [0..<k] @
      [upload_call env (id lec) (clock_base s) (fileUploads env s) k,
       ConsoleError (error_of (attempt env (id lec) (clock_base s) (fileUploads env s) k)),
       failure_toast, SetUploading False, SetUploadProgress 0])"
  using assms
  by (simp add: handleSubmit_def valid_form_def submit_try_def upload_loop_closed steps_def)

lemma handleSubmit_all_uploaded:
  assumes "valid_form s" "insert_result env (insert_row env s) = Ok lec"
    "first_failure env (id lec) (clock_base s) (fileUploads env s) 0 = None"
  defines "fs \<equiv> fileUploads env s"
  defines "url \<equiv> public_url env (path_of (attempt env (id lec) (clock_base s) fs 0))"
  defines "common \<equiv>
      [SetUploading True, SetUploadProgress 0, Insert (insert_row env s), SetUploadProgress 30] @
      steps env (id lec) (clock_base s) fs [0..<length fs] @
      [GetPublicUrl (path_of (attempt env (id lec) (clock_base s) fs 0)),
       Update (id lec) [(''audio_url'', JStr url)]]"
  shows "handleSubmit env s =
     (case update_result env (id lec) [(''audio_url'', JStr url)] of
        Rejected e \<Rightarrow>
          (s\<lparr>uploading := False, uploadProgress := 0\<rparr>,
           common @ [ConsoleError e, failure_toast, SetUploading False, SetUploadProgress 0])
      | Ok u \<Rightarrow>
          ((reset_form s)\<lparr>uploading := False, uploadProgress := 0\<rparr>,
           common @ [SetUploadProgress 100, success_toast, SetUploading False, SetUploadProgress 0])
      | Err e \<Rightarrow>
          ((reset_form s)\<lparr>uploading := False, uploadProgress := 0\<rparr>,
           common @ [SetUploadProgress 100, success_toast, SetUploading False, SetUploadProgress 0]))"
proof -
  have ne: "fs \<noteq> []" unfolding fs_def using assms(1) by (rule fileUploads_nonempty)
  then have upt: "[0..<length fs] = 0 # [Suc 0..<length fs]"
    by (simp add: upt_conv_Cons)
  show ?thesis
    using assms(1-3) ne
    by (simp add: handleSubmit_def valid_form_def submit_try_def upload_loop_closed steps_def
        set_audio_url_def Let_def fs_def [symmetric] url_def common_def upt
        split: outcome.splits)
qed


subsection \<open>A concrete submit\<close>

definition demo_row :: lecture where
  "demo_row =
     \<lparr>id = ''L7'', title = ''Intro'', description = None, transcript = None,
      audio_url = None, status = ''draft'', created_at = ''2024-03-01'',
      updated_at = ''2024-03-01'', teacher_id = ''t1''\<rparr>"

definition demo_env :: env where
  "demo_env =
     \<lparr>user = Some ''t1'', now = (\<lambda>k. 500 + k), insert_result = (\<lambda>p. Ok demo_row),
      upload_result = (\<lambda>k n f. Ok n), public_url = (\<lambda>p. ''https://cdn/'' @ p),
      update_result = (\<lambda>i p. Ok ())\<rparr>"

definition notes_pdf :: js_file where
  "notes_pdf = \<lparr>fname = ''notes.pdf'', ftype = ''application/pdf'', fsize = 2048, fdata = ''%PDF''\<rparr>"

definition slides_png :: js_file where
  "slides_png = \<lparr>fname = ''slides.png'', ftype = ''image/png'', fsize = 4096, fdata = ''PNG''\<rparr>"

definition clip_mp4 :: js_file where
  "clip_mp4 = \<lparr>fname = ''clip.mp4'', ftype = ''video/mp4'', fsize = 8192, fdata = ''MP4''\<rparr>"

definition demo_form :: upload_state where
  "demo_form =
     \<lparr>form_title = '' Intro '', form_description = '' '', isRecording = False,
      uploadedFiles = [notes_pdf, slides_png, clip_mp4], audioBlob = None, audioUrl = None,
      uploading = False, uploadProgress = 0, form_transcript = ''hello '',
      isListening = False, chunks = [], fileInput = Some ''notes.pdf''\<rparr>"

lemmas demo_defs = demo_env_def demo_form_def demo_row_def notes_pdf_def slides_png_def clip_mp4_def

lemma demo_run:
  "handleSubmit demo_env demo_form =
     ((reset_form demo_form)\<lparr>uploading := False, uploadProgress := 0\<rparr>,
      [SetUploading True, SetUploadProgress 0,
       Insert [(''teacher_id'', JStr ''t1''), (''title'', JStr ''Intro''),
               (''description'', JNull), (''transcript'', JStr ''hello''),
               (''status'', JStr ''draft'')],
       SetUploadProgress 30,
       Upload ''L7/500-notes.pdf'' notes_pdf, SetUploadProgress 50,
       Upload ''L7/501-slides.png'' slides_png, SetUploadProgress 70,
       Upload ''L7/502-clip.mp4'' clip_mp4, SetUploadProgress 90,
       GetPublicUrl ''L7/500-notes.pdf'',
       Update ''L7'' [(''audio_url'', JStr ''https://cdn/L7/500-notes.pdf'')],
       SetUploadProgress 100, success_toast, SetUploading False, SetUploadProgress 0])"
  by (simp add: handleSubmit_def submit_try_def upload_loop.simps set_audio_url_def
      insert_row_def fileUploads_def clock_base_def fileName_def show_nat.simps digit_char_def
      trim_def isWhiteSpace_def js_or_null_def Let_def demo_defs)


lemma success_toast_neq [simp]:
  "success_toast \<noteq> failure_toast"
  "success_toast \<noteq> Toast ''Title required'' d1 b1"
  "success_toast \<noteq> Toast ''Content required'' d2 b2"
  "success_toast \<noteq> Insert p" "success_toast \<noteq> Upload n f" "success_toast \<noteq> GetPublicUrl u"
  "success_toast \<noteq> Update i p" "success_toast \<noteq> ConsoleError e"
  "success_toast \<noteq> SetUploading b" "success_toast \<noteq> SetUploadProgress r"
  by (simp_all add: success_toast_def failure_toast_def)

lemma success_toast_not_in_steps [simp]: "success_toast \<notin> set (steps env lid base fs js)"
  by (simp add: success_toast_def steps_no_toast)

lemma success_cases:
  assumes "success_toast \<in> set (snd (handleSubmit env s))"
  shows "\<exists>lec. valid_form s \<and> insert_result env (insert_row env s) = Ok lec \<and>
    first_failure env (id lec) (clock_base s) (fileUploads env s) 0 = None \<and>
    (\<forall>e. update_result env (id lec)
        [(''audio_url'', JStr (public_url env
            (path_of (attempt env (id lec) (clock_base s) (fileUploads env s) 0))))] \<noteq> Rejected e)"
proof -
  have v: "valid_form s"
  proof (rule ccontr)
    assume "\<not> valid_form s"
    then have "success_toast \<notin> set (snd (handleSubmit env s))"
      by (auto simp: valid_form_def handleSubmit_def)
    with assms show False by simp
  qed
  show ?thesis
  proof (cases "insert_result env (insert_row env s)")
    case (Ok lec)
    show ?thesis
    proof (cases "first_failure env (id lec) (clock_base s) (fileUploads env s) 0")
      case (Some k)
      have "success_toast \<notin> set (snd (handleSubmit env s))"
        by (simp add: handleSubmit_failed_upload [OF v Ok Some] upload_call_def)
      with assms show ?thesis by simp
    next
      case None
      have "update_result env (id lec)
        [(''audio_url'', JStr (public_url env
            (path_of (attempt env (id lec) (clock_base s) (fileUploads env s) 0))))] \<noteq> Rejected e" for e
      proof
        assume r: "update_result env (id lec)
          [(''audio_url'', JStr (public_url env
            (path_of (attempt env (id lec) (clock_base s) (fileUploads env s) 0))))] = Rejected e"
        have "success_toast \<notin> set (snd (handleSubmit env s))"
          by (simp add: handleSubmit_all_uploaded [OF v Ok None] r)
        with assms show False by simp
      qed
      with v Ok None show ?thesis by blast
    qed
  next
    case (Err e)
    with v have "success_toast \<notin> set (snd (handleSubmit env s))"
      by (simp add: handleSubmit_def valid_form_def submit_try_def)
    with assms show ?thesis by simp
  next
    case (Rejected e)
    with v have "success_toast \<notin> set (snd (handleSubmit env s))"
      by (simp add: handleSubmit_def valid_form_def submit_try_def)
    with assms show ?thesis by simp
  qed
qed

lemma success_trace:
  assumes "success_toast \<in> set (snd (handleSubmit env s))"
  obtains lec where "valid_form s" "insert_result env (insert_row env s) = Ok lec"
    "first_failure env (id lec) (clock_base s) (fileUploads env s) 0 = None"
    "handleSubmit env s =
       ((reset_form s)\<lparr>uploading := False, uploadProgress := 0\<rparr>,
        [SetUploading True, SetUploadProgress 0, Insert (insert_row env s), SetUploadProgress 30] @
        steps env (id lec) (clock_base s) (fileUploads env s) [0..<length (fileUploads env s)] @
        [GetPublicUrl (path_of (attempt env (id lec) (clock_base s) (fileUploads env s) 0)),
         Update (id lec) [(''audio_url'', JStr (public_url env
            (path_of (attempt env (id lec) (clock_base s) (fileUploads env s) 0))))],
         SetUploadProgress 100, success_toast, SetUploading False, SetUploadProgress 0])"
proof -
  from success_cases [OF assms] obtain lec where h: "valid_form s"
    "insert_result env (insert_row env s) = Ok lec"
    "first_failure env (id lec) (clock_base s) (fileUploads env s) 0 = None"
    "\<forall>e. update_result env (id lec)
        [(''audio_url'', JStr (public_url env
            (path_of (attempt env (id lec) (clock_base s) (fileUploads env s) 0))))] \<noteq> Rejected e"
    by blast
  have "handleSubmit env s =
       ((reset_form s)\<lparr>uploading := False, uploadProgress := 0\<rparr>,
        [SetUploading True, SetUploadProgress 0, Insert (insert_row env s), SetUploadProgress 30] @
        steps env (id lec) (clock_base s) (fileUploads env s) [0..<length (fileUploads env s)] @
        [GetPublicUrl (path_of (attempt env (id lec) (clock_base s) (fileUploads env s) 0)),
         Update (id lec) [(''audio_url'', JStr (public_url env
            (path_of (attempt env (id lec) (clock_base s) (fileUploads env s) 0))))],
         SetUploadProgress 100, success_toast, SetUploading False, SetUploadProgress 0])"
    using h(4) by (simp add: handleSubmit_all_uploaded [OF h(1-3)] split: outcome.splits)
  with h(1-3) show ?thesis by (rule that)
qed

text \<open>
  Claim C2. In a submit that reaches the uploads (the form passes both guards and the
  insert returns a row), the files are the recorded audio, if there is one, followed by
  the selected files in their order. When every upload succeeds, the upload calls are
  these files, each once, in that order. When the upload at index \<open>k\<close> is the first to
  fail, the upload calls are the files up to and including \<open>k\<close>, each once: nothing
  after \<open>k\<close> is uploaded, \<open>k\<close> is not tried again, the failure toast is shown, the success
  toast is not, and the form keeps its values.
\<close>

theorem uploads_sequential_stop_at_first_error:
  assumes "valid_form s" and "insert_result env (insert_row env s) = Ok lec"
  shows
    "fileUploads env s =
       (case audioBlob s of None \<Rightarrow> [] | Some b \<Rightarrow> [audioFileForUpload env b]) @
       uploadedFiles s \<and>
     ((\<forall>j<length (fileUploads env s).
         succeeded (attempt env (id lec) (clock_base s) (fileUploads env s) j)) \<longrightarrow>
      map snd (upload_calls (snd (handleSubmit env s))) = fileUploads env s) \<and>
     (k < length (fileUploads env s) \<and>
      (\<forall>j<k. succeeded (attempt env (id lec) (clock_base s) (fileUploads env s) j)) \<and>
      \<not> succeeded (attempt env (id lec) (clock_base s) (fileUploads env s) k) \<longrightarrow>
      map snd (upload_calls (snd (handleSubmit env s))) = take (Suc k) (fileUploads env s) \<and>
      failure_toast \<in> set (snd (handleSubmit env s)) \<and>
      success_toast \<notin> set (snd (handleSubmit env s)) \<and>
      fst (handleSubmit env s) = s\<lparr>uploading := False, uploadProgress := 0\<rparr>)"
proof (intro conjI impI)
  show "fileUploads env s =
       (case audioBlob s of None \<Rightarrow> [] | Some b \<Rightarrow> [audioFileForUpload env b]) @
       uploadedFiles s"
    by (simp add: fileUploads_def)
next
  let ?fs = "fileUploads env s"
  assume "\<forall>j<length ?fs. succeeded (attempt env (id lec) (clock_base s) ?fs j)"
  then have n: "first_failure env (id lec) (clock_base s) ?fs 0 = None"
    by (intro first_failure_NoneI) simp
  have "map snd (upload_calls (snd (handleSubmit env s))) = map (\<lambda>j. ?fs ! j) [0..<length ?fs]"
    by (simp add: handleSubmit_all_uploaded [OF assms n] upload_calls_steps comp_def
        success_toast_def failure_toast_def split: outcome.splits)
  then show "map snd (upload_calls (snd (handleSubmit env s))) = ?fs"
    by (simp add: map_nth)
next
  let ?fs = "fileUploads env s"
  assume a: "k < length ?fs \<and>
      (\<forall>j<k. succeeded (attempt env (id lec) (clock_base s) ?fs j)) \<and>
      \<not> succeeded (attempt env (id lec) (clock_base s) ?fs k)"
  then have f: "first_failure env (id lec) (clock_base s) ?fs 0 = Some k"
    by (intro first_failure_SomeI) simp_all
  note run = handleSubmit_failed_upload [OF assms f]
  have "map snd (upload_calls (snd (handleSubmit env s))) = map (\<lambda>j. ?fs ! j) [0..<Suc k]"
    by (simp add: run upload_calls_steps upload_call_def comp_def failure_toast_def)
  also have "\<dots> = take (Suc k) ?fs"
    using a by (intro map_nth_upt_take) simp
  finally show "map snd (upload_calls (snd (handleSubmit env s))) = take (Suc k) ?fs" .
  show "failure_toast \<in> set (snd (handleSubmit env s))" by (simp add: run)
  show "success_toast \<notin> set (snd (handleSubmit env s))" by (simp add: run upload_call_def)
  show "fst (handleSubmit env s) = s\<lparr>uploading := False, uploadProgress := 0\<rparr>"
    by (simp add: run)
qed


definition quota_env :: env where
  "quota_env = demo_env\<lparr>upload_result := (\<lambda>k n f. if k = 0 then Ok n else Err ''quota'')\<rparr>"

theorem uploads_sequential_stop_at_first_error_witness:
  "valid_form demo_form \<and>
   insert_result quota_env (insert_row quota_env demo_form) = Ok demo_row \<and>
   fileUploads quota_env demo_form = [notes_pdf, slides_png, clip_mp4] \<and>
   map snd (upload_calls (snd (handleSubmit quota_env demo_form))) = [notes_pdf, slides_png] \<and>
   failure_toast \<in> set (snd (handleSubmit quota_env demo_form)) \<and>
   success_toast \<notin> set (snd (handleSubmit quota_env demo_form)) \<and>
   fst (handleSubmit quota_env demo_form) = demo_form\<lparr>uploading := False, uploadProgress := 0\<rparr> \<and>
   map snd (upload_calls (snd (handleSubmit demo_env demo_form))) =
     [notes_pdf, slides_png, clip_mp4]"
proof -
  have v: "valid_form demo_form"
    by (simp add: valid_form_def demo_form_def trim_def isWhiteSpace_def)
  have i: "insert_result quota_env (insert_row quota_env demo_form) = Ok demo_row"
    by (simp add: quota_env_def demo_env_def)
  have fs: "fileUploads quota_env demo_form = [notes_pdf, slides_png, clip_mp4]"
    by (simp add: fileUploads_def demo_form_def)
  have a: "1 < length (fileUploads quota_env demo_form) \<and>
      (\<forall>j<1. succeeded (attempt quota_env (id demo_row) (clock_base demo_form)
                 (fileUploads quota_env demo_form) j)) \<and>
      \<not> succeeded (attempt quota_env (id demo_row) (clock_base demo_form)
                 (fileUploads quota_env demo_form) 1)"
    unfolding fs by (simp add: attempt_def quota_env_def demo_env_def)
  have i': "insert_result demo_env (insert_row demo_env demo_form) = Ok demo_row"
    by (simp add: demo_env_def)
  have fs': "fileUploads demo_env demo_form = [notes_pdf, slides_png, clip_mp4]"
    by (simp add: fileUploads_def demo_form_def)
  have a': "\<forall>j<length (fileUploads demo_env demo_form).
      succeeded (attempt demo_env (id demo_row) (clock_base demo_form)
                 (fileUploads demo_env demo_form) j)"
    by (simp add: attempt_def demo_env_def)
  have "map snd (upload_calls (snd (handleSubmit demo_env demo_form))) =
      fileUploads demo_env demo_form"
    using uploads_sequential_stop_at_first_error [OF v i', of 0] a' by blast
  then have all: "map snd (upload_calls (snd (handleSubmit demo_env demo_form))) =
      [notes_pdf, slides_png, clip_mp4]"
    by (simp only: fs')
  from uploads_sequential_stop_at_first_error [OF v i, of 1] a v i fs all
  show ?thesis by (simp add: numeral_2_eq_2)
qed


text \<open>
  Claim C3. A submit that shows the success toast wrote to the \<open>lectures\<close> table exactly
  twice, in this order: one insert of a row with \<open>teacher_id\<close> the user's id, the trimmed
  title, the trimmed description or null, the trimmed transcript or null and status
  \<open>draft\<close>; then one update, of the row the insert returned, setting \<open>audio_url\<close> to the
  public URL of the path the storage returned for the first file. The first file is the
  recorded audio when there is one, else the first selected file.
\<close>

theorem successful_submit_writes:
  assumes "success_toast \<in> set (snd (handleSubmit env s))"
  shows "\<exists>lec f0 rest path.
    insert_result env (insert_row env s) = Ok lec \<and>
    fileUploads env s = f0 # rest \<and>
    (case audioBlob s of
       Some b \<Rightarrow> f0 = audioFileForUpload env b \<and> rest = uploadedFiles s
     | None \<Rightarrow> uploadedFiles s = f0 # rest) \<and>
    upload_result env 0 (fileName env (id lec) (clock_base s) f0) f0 = Ok path \<and>
    filter is_table_write (snd (handleSubmit env s)) =
      [Insert [(''teacher_id'', case user env of None \<Rightarrow> JUndefined | Some uid \<Rightarrow> JStr uid),
               (''title'', JStr (trim (form_title s))),
               (''description'',
                  if trim (form_description s) = [] then JNull
                  else JStr (trim (form_description s))),
               (''transcript'',
                  if trim (form_transcript s) = [] then JNull
                  else JStr (trim (form_transcript s))),
               (''status'', JStr ''draft'')],
       Update (id lec) [(''audio_url'', JStr (public_url env path))]]"
proof -
  from assms obtain lec where h: "valid_form s"
    "insert_result env (insert_row env s) = Ok lec"
    "first_failure env (id lec) (clock_base s) (fileUploads env s) 0 = None"
    and run: "handleSubmit env s =
       ((reset_form s)\<lparr>uploading := False, uploadProgress := 0\<rparr>,
        [SetUploading True, SetUploadProgress 0, Insert (insert_row env s), SetUploadProgress 30] @
        steps env (id lec) (clock_base s) (fileUploads env s) [0..<length (fileUploads env s)] @
        [GetPublicUrl (path_of (attempt env (id lec) (clock_base s) (fileUploads env s) 0)),
         Update (id lec) [(''audio_url'', JStr (public_url env
            (path_of (attempt env (id lec) (clock_base s) (fileUploads env s) 0))))],
         SetUploadProgress 100, success_toast, SetUploading False, SetUploadProgress 0])"
    by (rule success_trace)
  from fileUploads_nonempty [OF h(1)] obtain f0 rest where fs: "fileUploads env s = f0 # rest"
    by (cases "fileUploads env s") auto
  have first: "case audioBlob s of
       Some b \<Rightarrow> f0 = audioFileForUpload env b \<and> rest = uploadedFiles s
     | None \<Rightarrow> uploadedFiles s = f0 # rest"
    using fs by (auto simp: fileUploads_def split: option.splits)
  have "succeeded (attempt env (id lec) (clock_base s) (fileUploads env s) 0)"
    using first_failure_None_all [OF h(3), of 0] fs by simp
  then obtain path where p: "attempt env (id lec) (clock_base s) (fileUploads env s) 0 = Ok path"
    by (cases "attempt env (id lec) (clock_base s) (fileUploads env s) 0") auto
  then have up: "upload_result env 0 (fileName env (id lec) (clock_base s) f0) f0 = Ok path"
    by (simp add: attempt_def fs)
  have "filter is_table_write (snd (handleSubmit env s)) =
      [Insert (insert_row env s), Update (id lec) [(''audio_url'', JStr (public_url env path))]]"
    by (simp add: run filter_steps_table_write p success_toast_def)
  then show ?thesis
    using h(2) fs first up by (auto simp: insert_row_def js_or_null_def)
qed

theorem successful_submit_writes_witness:
  "success_toast \<in> set (snd (handleSubmit demo_env demo_form)) \<and>
   insert_result demo_env (insert_row demo_env demo_form) = Ok demo_row \<and>
   filter is_table_write (snd (handleSubmit demo_env demo_form)) =
     [Insert [(''teacher_id'', JStr ''t1''), (''title'', JStr ''Intro''),
              (''description'', JNull), (''transcript'', JStr ''hello''),
              (''status'', JStr ''draft'')],
      Update ''L7'' [(''audio_url'', JStr ''https://cdn/L7/500-notes.pdf'')]]"
proof -
  have ok: "success_toast \<in> set (snd (handleSubmit demo_env demo_form))"
    by (simp add: demo_run)
  have i: "insert_result demo_env (insert_row demo_env demo_form) = Ok demo_row"
    by (simp add: demo_env_def)
  from successful_submit_writes [OF ok] obtain lec f0 rest path where
    w: "insert_result demo_env (insert_row demo_env demo_form) = Ok lec"
      "fileUploads demo_env demo_form = f0 # rest"
      "upload_result demo_env 0 (fileName demo_env (id lec) (clock_base demo_form) f0) f0 = Ok path"
      "filter is_table_write (snd (handleSubmit demo_env demo_form)) =
        [Insert [(''teacher_id'', case user demo_env of None \<Rightarrow> JUndefined | Some uid \<Rightarrow> JStr uid),
               (''title'', JStr (trim (form_title demo_form))),
               (''description'',
                  if trim (form_description demo_form) = [] then JNull
                  else JStr (trim (form_description demo_form))),
               (''transcript'',
                  if trim (form_transcript demo_form) = [] then JNull
                  else JStr (trim (form_transcript demo_form))),
               (''status'', JStr ''draft'')],
         Update (id lec) [(''audio_url'', JStr (public_url demo_env path))]]"
    by blast
  from w(1) i have lec: "lec = demo_row" by simp
  from w(2) have f0: "f0 = notes_pdf" by (simp add: fileUploads_def demo_form_def)
  from w(3) have path: "path = ''L7/500-notes.pdf''"
    unfolding lec f0
    by (simp add: demo_env_def fileName_def clock_base_def demo_form_def demo_row_def
        notes_pdf_def show_nat.simps digit_char_def)
  show ?thesis
    using ok i w(4) unfolding lec path
    by (simp add: demo_env_def demo_form_def demo_row_def trim_def isWhiteSpace_def)
qed

text \<open>The part of a trace before the success toast.\<close>

definition until_success :: "effect list \<Rightarrow> effect list" where
  "until_success tr = takeWhile (\<lambda>e. e \<noteq> success_toast) tr"

lemma until_success_prefix:
  assumes "success_toast \<notin> set pre"
  shows "until_success (pre @ success_toast # rest) = pre"
proof -
  have "\<forall>e\<in>set pre. e \<noteq> success_toast" using assms by auto
  then show ?thesis
    by (simp add: until_success_def takeWhile_tail takeWhile_eq_all_conv)
qed

text \<open>
  Claim C5. In a submit that shows the success toast, with \<open>n\<close> files, the values passed
  to \<open>setUploadProgress\<close> up to that toast are \<open>0\<close>, \<open>30\<close>, then \<open>30 + 60 * (k / n)\<close> for
  \<open>k = 1..n\<close>, then \<open>100\<close>: they never decrease, none exceeds \<open>100\<close>, and the last one
  is \<open>100\<close>.
\<close>

theorem progress_sequence:
  assumes "success_toast \<in> set (snd (handleSubmit env s))"
  shows "1 \<le> length (fileUploads env s) \<and>
    progress_values (until_success (snd (handleSubmit env s))) =
      [0, 30] @
      map (\<lambda>k. 30 + 60 * (real k / real (length (fileUploads env s))))
        [1..<Suc (length (fileUploads env s))] @
      [100] \<and>
    sorted (progress_values (until_success (snd (handleSubmit env s)))) \<and>
    (\<forall>p\<in>set (progress_values (until_success (snd (handleSubmit env s)))). p \<le> 100) \<and>
    last (progress_values (until_success (snd (handleSubmit env s)))) = 100"
proof -
  let ?n = "length (fileUploads env s)"
  let ?f = "\<lambda>k. 30 + 60 * (real k / real ?n)"
  from assms obtain lec where h: "valid_form s"
    and "insert_result env (insert_row env s) = Ok lec"
    and "first_failure env (id lec) (clock_base s) (fileUploads env s) 0 = None"
    and run: "handleSubmit env s =
       ((reset_form s)\<lparr>uploading := False, uploadProgress := 0\<rparr>,
        [SetUploading True, SetUploadProgress 0, Insert (insert_row env s), SetUploadProgress 30] @
        steps env (id lec) (clock_base s) (fileUploads env s) [0..<length (fileUploads env s)] @
        [GetPublicUrl (path_of (attempt env (id lec) (clock_base s) (fileUploads env s) 0)),
         Update (id lec) [(''audio_url'', JStr (public_url env
            (path_of (attempt env (id lec) (clock_base s) (fileUploads env s) 0))))],
         SetUploadProgress 100, success_toast, SetUploading False, SetUploadProgress 0])"
    by (rule success_trace)
  define pre where "pre =
        [SetUploading True, SetUploadProgress 0, Insert (insert_row env s), SetUploadProgress 30] @
        steps env (id lec) (clock_base s) (fileUploads env s) [0..<length (fileUploads env s)] @
        [GetPublicUrl (path_of (attempt env (id lec) (clock_base s) (fileUploads env s) 0)),
         Update (id lec) [(''audio_url'', JStr (public_url env
            (path_of (attempt env (id lec) (clock_base s) (fileUploads env s) 0))))],
         SetUploadProgress 100]"
  have "snd (handleSubmit env s) =
      pre @ success_toast # [SetUploading False, SetUploadProgress 0]"
    by (simp add: run pre_def)
  moreover have "success_toast \<notin> set pre"
    by (simp add: pre_def)
  ultimately have us: "until_success (snd (handleSubmit env s)) = pre"
    using until_success_prefix [of pre "[SetUploading False, SetUploadProgress 0]"] by simp
  have n: "1 \<le> ?n" using fileUploads_nonempty [OF h] by (cases "fileUploads env s") auto
  define mid where "mid = map ?f [1..<Suc ?n]"
  have "map (progress_at ?n) [0..<?n] = map (\<lambda>j. ?f (Suc j)) [0..<?n]"
    by (simp add: progress_at_def)
  also have "\<dots> = map ?f (map Suc [0..<?n])" by (simp add: comp_def)
  also have "map Suc [0..<?n] = [1..<Suc ?n]" by (simp add: map_Suc_upt)
  finally have steps_eq: "map (progress_at ?n) [0..<?n] = mid" by (simp only: mid_def)
  have seq: "progress_values (until_success (snd (handleSubmit env s))) = [0, 30] @ mid @ [100]"
    unfolding us by (simp add: pre_def progress_values_steps steps_eq)
  have in_mid: "30 \<le> p \<and> p \<le> 90" if "p \<in> set mid" for p
  proof -
    from that have "p \<in> ?f ` {1..<Suc ?n}"
      unfolding mid_def by (simp only: set_map set_upt)
    then obtain k where k': "p = ?f k" "k \<in> {1..<Suc ?n}" by (rule imageE)
    then have k: "p = ?f k" "k \<le> ?n" by simp_all
    have "0 \<le> real k / real ?n" by simp
    moreover have "real k / real ?n \<le> 1" using k(2) n by (simp add: divide_le_eq)
    ultimately show ?thesis unfolding k(1) by linarith
  qed
  have sorted_mid: "sorted mid"
    unfolding mid_def
    by (rule sorted_wrt_map_mono [where f = ?f, OF sorted_upt]) (simp add: divide_right_mono)
  have srt: "sorted ([0, 30] @ mid @ [100])"
    using sorted_mid in_mid by (fastforce simp: sorted_append)
  have bound: "\<forall>p\<in>set ([0, 30] @ mid @ [100]). p \<le> 100"
    using in_mid by fastforce
  have "progress_values (until_success (snd (handleSubmit env s))) =
      [0, 30] @ map ?f [1..<Suc ?n] @ [100]"
    using seq by (simp only: mid_def)
  moreover have "sorted (progress_values (until_success (snd (handleSubmit env s))))"
    unfolding seq by (rule srt)
  moreover have "\<forall>p\<in>set (progress_values (until_success (snd (handleSubmit env s)))). p \<le> 100"
    unfolding seq by (rule bound)
  moreover have "last (progress_values (until_success (snd (handleSubmit env s)))) = 100"
    unfolding seq by simp
  ultimately show ?thesis using n by blast
qed

theorem progress_sequence_witness:
  "success_toast \<in> set (snd (handleSubmit demo_env demo_form)) \<and>
   length (fileUploads demo_env demo_form) = 3 \<and>
   progress_values (until_success (snd (handleSubmit demo_env demo_form))) =
     [0, 30, 50, 70, 90, 100] \<and>
   sorted (progress_values (until_success (snd (handleSubmit demo_env demo_form)))) \<and>
   last (progress_values (until_success (snd (handleSubmit demo_env demo_form)))) = 100"
proof -
  have ok: "success_toast \<in> set (snd (handleSubmit demo_env demo_form))"
    by (simp add: demo_run)
  have n: "length (fileUploads demo_env demo_form) = 3"
    by (simp add: fileUploads_def demo_form_def)
  have "progress_values (until_success (snd (handleSubmit demo_env demo_form))) =
      [0, 30, 50, 70, 90, 100]"
    by (simp add: demo_run until_success_def success_toast_def)
  with progress_sequence [OF ok] ok n show ?thesis by simp
qed

text \<open>
  After the success toast the \<open>finally\<close> block sets the progress back to \<open>0\<close>, as it does
  on every path that entered the \<open>try\<close>.
\<close>

lemma progress_reset_in_finally:
  "progress_values (snd (handleSubmit demo_env demo_form)) = [0, 30, 50, 70, 90, 100, 0] \<and>
   uploadProgress (fst (handleSubmit demo_env demo_form)) = 0"
  by (simp add: demo_run success_toast_def)

subsection \<open>Failures after the insert\<close>

lemma thrown_submit_keeps_form:
  assumes "failure_toast \<in> set (snd (handleSubmit env s))"
  shows "fst (handleSubmit env s) = s\<lparr>uploading := False, uploadProgress := 0\<rparr>"
proof -
  have "failure_toast \<notin> set tr" if "submit_try env s = (Inr s', tr)" for s' tr
    using that
    by (auto simp: submit_try_def upload_loop_closed set_audio_url_def Let_def failure_toast_def
        success_toast_def upload_call_def
        split: outcome.splits option.splits sum.splits prod.splits if_splits)
  then show ?thesis
    using assms
    by (auto simp: handleSubmit_def failure_toast_def split: prod.splits sum.splits if_splits)
qed

lemma update_error_is_ignored:
  assumes "valid_form s" "insert_result env (insert_row env s) = Ok lec"
    "\<forall>j<length (fileUploads env s).
        succeeded (attempt env (id lec) (clock_base s) (fileUploads env s) j)"
    "update_result env (id lec)
        [(''audio_url'', JStr (public_url env
            (path_of (attempt env (id lec) (clock_base s) (fileUploads env s) 0))))] = Err e"
  shows "fst (handleSubmit env s) = (reset_form s)\<lparr>uploading := False, uploadProgress := 0\<rparr> \<and>
    success_toast \<in> set (snd (handleSubmit env s)) \<and>
    failure_toast \<notin> set (snd (handleSubmit env s))"
proof -
  have n: "first_failure env (id lec) (clock_base s) (fileUploads env s) 0 = None"
    using assms(3) by (intro first_failure_NoneI) simp
  show ?thesis
    by (simp add: handleSubmit_all_uploaded [OF assms(1,2) n] assms(4) steps_no_toast
        failure_toast_def success_toast_def)
qed

definition denied_env :: env where
  "denied_env = demo_env\<lparr>update_result := (\<lambda>i p. Err ''permission denied'')\<rparr>"

text \<open>
  Claim C9 at a concrete input: the insert and the three uploads succeed and the
  \<open>audio_url\<close> update is answered with an error. The handler does not read that answer:
  it shows the success toast and clears the form.
\<close>

theorem update_error_clears_form:
  "update_result denied_env ''L7'' [(''audio_url'', JStr ''https://cdn/L7/500-notes.pdf'')] =
     Err ''permission denied'' \<and>
   Update ''L7'' [(''audio_url'', JStr ''https://cdn/L7/500-notes.pdf'')] \<in>
     set (snd (handleSubmit denied_env demo_form)) \<and>
   success_toast \<in> set (snd (handleSubmit denied_env demo_form)) \<and>
   failure_toast \<notin> set (snd (handleSubmit denied_env demo_form)) \<and>
   fst (handleSubmit denied_env demo_form) =
     (reset_form demo_form)\<lparr>uploading := False, uploadProgress := 0\<rparr> \<and>
   form_title (fst (handleSubmit denied_env demo_form)) = [] \<and>
   uploadedFiles (fst (handleSubmit denied_env demo_form)) = [] \<and>
   form_title demo_form = '' Intro '' \<and>
   uploadedFiles demo_form = [notes_pdf, slides_png, clip_mp4]"
proof -
  have run: "handleSubmit denied_env demo_form =
     ((reset_form demo_form)\<lparr>uploading := False, uploadProgress := 0\<rparr>,
      [SetUploading True, SetUploadProgress 0,
       Insert [(''teacher_id'', JStr ''t1''), (''title'', JStr ''Intro''),
               (''description'', JNull), (''transcript'', JStr ''hello''),
               (''status'', JStr ''draft'')],
       SetUploadProgress 30,
       Upload ''L7/500-notes.pdf'' notes_pdf, SetUploadProgress 50,
       Upload ''L7/501-slides.png'' slides_png, SetUploadProgress 70,
       Upload ''L7/502-clip.mp4'' clip_mp4, SetUploadProgress 90,
       GetPublicUrl ''L7/500-notes.pdf'',
       Update ''L7'' [(''audio_url'', JStr ''https://cdn/L7/500-notes.pdf'')],
       SetUploadProgress 100, success_toast, SetUploading False, SetUploadProgress 0])"
    by (simp add: handleSubmit_def submit_try_def upload_loop.simps set_audio_url_def
        insert_row_def fileUploads_def clock_base_def fileName_def show_nat.simps digit_char_def
        trim_def isWhiteSpace_def js_or_null_def Let_def denied_env_def demo_defs)
  show ?thesis
    unfolding run
    by (simp add: denied_env_def demo_env_def success_toast_def failure_toast_def
        reset_form_def demo_form_def)
qed


section \<open>LectureUpload (single audio file)\<close>

text \<open>
  The component of \<open>src/src/components/teacher/LectureUpload.tsx\<close>: one optional audio
  file, one optional recording, and a submit that only inserts the row.
\<close>

record audio_form =
  a_title :: string
  a_description :: string
  a_isRecording :: bool
  audioFile :: "js_file option"
  a_audioBlob :: "blob option"
  a_audioUrl :: "string option"
  a_uploading :: bool
  a_uploadProgress :: real
  a_fileInput :: "string option"

definition audio_insert_row :: "env \<Rightarrow> audio_form \<Rightarrow> payload" where
  "audio_insert_row env s =
     [(''teacher_id'', case user env of None \<Rightarrow> JUndefined | Some uid \<Rightarrow> JStr uid),
      (''title'', JStr (trim (a_title s))),
      (''description'', js_or_null (trim (a_description s))),
      (''status'', JStr ''draft'')]"

definition audio_success_toast :: effect where
  "audio_success_toast =
     Toast ''Lecture uploaded successfully!''
       ''Your lecture has been saved as a draft. You can edit and publish it later.'' False"

definition audio_reset_form :: "audio_form \<Rightarrow> audio_form" where
  "audio_reset_form s =
     s\<lparr>a_title := [], a_description := [], audioFile := None, a_audioBlob := None,
       a_audioUrl := None,
       a_fileInput := (case a_fileInput s of None \<Rightarrow> None | Some v \<Rightarrow> Some [])\<rparr>"

definition handleSubmit_audio :: "env \<Rightarrow> audio_form \<Rightarrow> audio_form \<times> effect list" where
  "handleSubmit_audio env s =
     (if trim (a_title s) = [] then
        (s, [Toast ''Title required'' ''Please enter a title for your lecture'' True])
      else if audioFile s = None \<and> a_audioBlob s = None then
        (s, [Toast ''Audio required'' ''Please record or upload an audio file'' True])
      else
        (let row = audio_insert_row env s
         in case insert_result env row of
              Ok lecture \<Rightarrow>
                ((audio_reset_form s)\<lparr>a_uploading := False, a_uploadProgress := 0\<rparr>,
                 [SetUploading True, SetUploadProgress 0, Insert row, SetUploadProgress 50,
                  SetUploadProgress 100, audio_success_toast,
                  SetUploading False, SetUploadProgress 0])
            | Err e \<Rightarrow>
                (s\<lparr>a_uploading := False, a_uploadProgress := 0\<rparr>,
                 [SetUploading True, SetUploadProgress 0, Insert row,
                  ConsoleError e, failure_toast, SetUploading False, SetUploadProgress 0])
            | Rejected e \<Rightarrow>
                (s\<lparr>a_uploading := False, a_uploadProgress := 0\<rparr>,
                 [SetUploading True, SetUploadProgress 0, Insert row,
                  ConsoleError e, failure_toast, SetUploading False, SetUploadProgress 0])))"

definition valid_audio_form :: "audio_form \<Rightarrow> bool" where
  "valid_audio_form s =
     (trim (a_title s) \<noteq> [] \<and> (audioFile s \<noteq> None \<or> a_audioBlob s \<noteq> None))"

fun insert_calls :: "effect list \<Rightarrow> payload list" where
  "insert_calls [] = []"
| "insert_calls (Insert p # tr) = p # insert_calls tr"
| "insert_calls (e # tr) = insert_calls tr"

lemma insert_calls_append [simp]: "insert_calls (a @ b) = insert_calls a @ insert_calls b"
  by (induction a rule: insert_calls.induct) auto

lemma insert_calls_steps [simp]: "insert_calls (steps env lid base fs js) = []"
  by (induction js) (auto simp: steps_def upload_call_def)

lemma filter_remote_steps:
  "filter is_remote (steps env lid base fs js) = map (upload_call env lid base fs) js"
  by (induction js) (auto simp: steps_def upload_call_def)

lemma invalid_form_no_remote:
  "\<not> valid_form s \<Longrightarrow> filter is_remote (snd (handleSubmit env s)) = []"
  by (auto simp: valid_form_def handleSubmit_def)

lemma invalid_audio_form_no_remote:
  "\<not> valid_audio_form s \<Longrightarrow> filter is_remote (snd (handleSubmit_audio env s)) = []"
  by (auto simp: valid_audio_form_def handleSubmit_audio_def)

lemma valid_form_inserts:
  assumes "valid_form s"
  shows "insert_calls (snd (handleSubmit env s)) = [insert_row env s] \<and>
         hd (filter is_remote (snd (handleSubmit env s))) = Insert (insert_row env s)"
proof (cases "insert_result env (insert_row env s)")
  case (Ok lec)
  show ?thesis
  proof (cases "first_failure env (id lec) (clock_base s) (fileUploads env s) 0")
    case None
    show ?thesis
      by (simp add: handleSubmit_all_uploaded [OF assms Ok None] success_toast_def
          failure_toast_def split: outcome.splits)
  next
    case (Some k)
    show ?thesis
      by (simp add: handleSubmit_failed_upload [OF assms Ok Some] upload_call_def
          failure_toast_def)
  qed
next
  case (Err e)
  with assms show ?thesis
    by (simp add: handleSubmit_def valid_form_def submit_try_def failure_toast_def)
next
  case (Rejected e)
  with assms show ?thesis
    by (simp add: handleSubmit_def valid_form_def submit_try_def failure_toast_def)
qed

lemma valid_audio_form_inserts:
  assumes "valid_audio_form s"
  shows "insert_calls (snd (handleSubmit_audio env s)) = [audio_insert_row env s] \<and>
         filter is_remote (snd (handleSubmit_audio env s)) = [Insert (audio_insert_row env s)]"
  using assms
  by (cases "insert_result env (audio_insert_row env s)")
    (simp_all add: handleSubmit_audio_def valid_audio_form_def audio_success_toast_def
      failure_toast_def)

text \<open>
  Claim C8. Neither component calls the remote service when the title is empty or white
  space only, or when there is nothing to upload (no recording and no selected file).
  On a form that passes the guards each inserts exactly one row, as its first remote
  call, with status \<open>draft\<close>, the trimmed title and the trimmed description or null;
  with the same title and description the two rows agree on these columns and on
  \<open>teacher_id\<close>.
\<close>

theorem upload_components_agree:
  "((trim (form_title s) = [] \<or> (uploadedFiles s = [] \<and> audioBlob s = None)) \<longrightarrow>
      filter is_remote (snd (handleSubmit env s)) = []) \<and>
   ((trim (a_title a) = [] \<or> (audioFile a = None \<and> a_audioBlob a = None)) \<longrightarrow>
      filter is_remote (snd (handleSubmit_audio env a)) = []) \<and>
   (valid_form s \<and> valid_audio_form a \<and>
    a_title a = form_title s \<and> a_description a = form_description s \<longrightarrow>
      (\<exists>p q. insert_calls (snd (handleSubmit env s)) = [p] \<and>
             insert_calls (snd (handleSubmit_audio env a)) = [q] \<and>
             hd (filter is_remote (snd (handleSubmit env s))) = Insert p \<and>
             hd (filter is_remote (snd (handleSubmit_audio env a))) = Insert q \<and>
             map_of p ''status'' = Some (JStr ''draft'') \<and>
             map_of q ''status'' = Some (JStr ''draft'') \<and>
             map_of p ''title'' = Some (JStr (trim (form_title s))) \<and>
             map_of q ''title'' = Some (JStr (trim (form_title s))) \<and>
             map_of p ''description'' =
               Some (if trim (form_description s) = [] then JNull
                     else JStr (trim (form_description s))) \<and>
             map_of q ''description'' = map_of p ''description'' \<and>
             map_of q ''teacher_id'' = map_of p ''teacher_id''))"
proof (intro conjI impI)
  assume "trim (form_title s) = [] \<or> (uploadedFiles s = [] \<and> audioBlob s = None)"
  then have "\<not> valid_form s" by (auto simp: valid_form_def)
  then show "filter is_remote (snd (handleSubmit env s)) = []"
    by (rule invalid_form_no_remote)
next
  assume "trim (a_title a) = [] \<or> (audioFile a = None \<and> a_audioBlob a = None)"
  then have "\<not> valid_audio_form a" by (auto simp: valid_audio_form_def)
  then show "filter is_remote (snd (handleSubmit_audio env a)) = []"
    by (rule invalid_audio_form_no_remote)
next
  assume h: "valid_form s \<and> valid_audio_form a \<and>
    a_title a = form_title s \<and> a_description a = form_description s"
  note m = valid_form_inserts [of s env] valid_audio_form_inserts [of a env]
  show "\<exists>p q. insert_calls (snd (handleSubmit env s)) = [p] \<and>
             insert_calls (snd (handleSubmit_audio env a)) = [q] \<and>
             hd (filter is_remote (snd (handleSubmit env s))) = Insert p \<and>
             hd (filter is_remote (snd (handleSubmit_audio env a))) = Insert q \<and>
             map_of p ''status'' = Some (JStr ''draft'') \<and>
             map_of q ''status'' = Some (JStr ''draft'') \<and>
             map_of p ''title'' = Some (JStr (trim (form_title s))) \<and>
             map_of q ''title'' = Some (JStr (trim (form_title s))) \<and>
             map_of p ''description'' =
               Some (if trim (form_description s) = [] then JNull
                     else JStr (trim (form_description s))) \<and>
             map_of q ''description'' = map_of p ''description'' \<and>
             map_of q ''teacher_id'' = map_of p ''teacher_id''"
    apply (rule exI [of _ "insert_row env s"])
    apply (rule exI [of _ "audio_insert_row env a"])
    using h m
    apply (simp add: insert_row_def audio_insert_row_def js_or_null_def)
    done
qed


definition demo_audio :: audio_form where
  "demo_audio =
     \<lparr>a_title = '' Intro '', a_description = '' '', a_isRecording = False,
      audioFile = Some \<lparr>fname = ''talk.mp3'', ftype = ''audio/mpeg'', fsize = 1000, fdata = ''ID3''\<rparr>,
      a_audioBlob = None, a_audioUrl = Some ''blob:1'', a_uploading = False,
      a_uploadProgress = 0, a_fileInput = Some ''talk.mp3''\<rparr>"

theorem upload_components_agree_witness:
  "filter is_remote (snd (handleSubmit demo_env (demo_form\<lparr>form_title := ''  ''\<rparr>))) = [] \<and>
   filter is_remote (snd (handleSubmit_audio demo_env (demo_audio\<lparr>audioFile := None\<rparr>))) = [] \<and>
   valid_form demo_form \<and> valid_audio_form demo_audio \<and>
   insert_calls (snd (handleSubmit demo_env demo_form)) =
     [[(''teacher_id'', JStr ''t1''), (''title'', JStr ''Intro''), (''description'', JNull),
       (''transcript'', JStr ''hello''), (''status'', JStr ''draft'')]] \<and>
   insert_calls (snd (handleSubmit_audio demo_env demo_audio)) =
     [[(''teacher_id'', JStr ''t1''), (''title'', JStr ''Intro''), (''description'', JNull),
       (''status'', JStr ''draft'')]] \<and>
   hd (filter is_remote (snd (handleSubmit demo_env demo_form))) =
     Insert [(''teacher_id'', JStr ''t1''), (''title'', JStr ''Intro''), (''description'', JNull),
       (''transcript'', JStr ''hello''), (''status'', JStr ''draft'')]"
proof -
  have v: "valid_form demo_form"
    by (simp add: valid_form_def demo_form_def trim_def isWhiteSpace_def)
  have va: "valid_audio_form demo_audio"
    by (simp add: valid_audio_form_def demo_audio_def trim_def isWhiteSpace_def)
  have same: "a_title demo_audio = form_title demo_form"
    "a_description demo_audio = form_description demo_form"
    by (simp_all add: demo_audio_def demo_form_def)
  have blank: "trim (form_title (demo_form\<lparr>form_title := ''  ''\<rparr>)) = [] \<or>
      (uploadedFiles (demo_form\<lparr>form_title := ''  ''\<rparr>) = [] \<and>
       audioBlob (demo_form\<lparr>form_title := ''  ''\<rparr>) = None)"
    by (simp add: trim_def isWhiteSpace_def)
  have empty: "trim (a_title (demo_audio\<lparr>audioFile := None\<rparr>)) = [] \<or>
      (audioFile (demo_audio\<lparr>audioFile := None\<rparr>) = None \<and>
       a_audioBlob (demo_audio\<lparr>audioFile := None\<rparr>) = None)"
    by (simp add: demo_audio_def)
  have r1: "filter is_remote (snd (handleSubmit demo_env (demo_form\<lparr>form_title := ''  ''\<rparr>))) = []"
    using upload_components_agree [of "demo_form\<lparr>form_title := ''  ''\<rparr>" demo_env demo_audio] blank
    by blast
  have r2: "filter is_remote (snd (handleSubmit_audio demo_env (demo_audio\<lparr>audioFile := None\<rparr>))) = []"
    using upload_components_agree [of demo_form demo_env "demo_audio\<lparr>audioFile := None\<rparr>"] empty
    by blast
  have i1: "insert_calls (snd (handleSubmit demo_env demo_form)) =
     [[(''teacher_id'', JStr ''t1''), (''title'', JStr ''Intro''), (''description'', JNull),
       (''transcript'', JStr ''hello''), (''status'', JStr ''draft'')]]"
    by (simp add: demo_run success_toast_def)
  have i2: "insert_calls (snd (handleSubmit_audio demo_env demo_audio)) =
     [[(''teacher_id'', JStr ''t1''), (''title'', JStr ''Intro''), (''description'', JNull),
       (''status'', JStr ''draft'')]]"
    by (simp add: handleSubmit_audio_def audio_insert_row_def demo_audio_def demo_env_def
        trim_def isWhiteSpace_def js_or_null_def audio_success_toast_def)
  from upload_components_agree [of demo_form demo_env demo_audio] v va same
  obtain p where "insert_calls (snd (handleSubmit demo_env demo_form)) = [p]"
    "hd (filter is_remote (snd (handleSubmit demo_env demo_form))) = Insert p"
    by blast
  with i1 have h: "hd (filter is_remote (snd (handleSubmit demo_env demo_form))) =
     Insert [(''teacher_id'', JStr ''t1''), (''title'', JStr ''Intro''), (''description'', JNull),
       (''transcript'', JStr ''hello''), (''status'', JStr ''draft'')]"
    by simp
  from r1 r2 v va i1 i2 h show ?thesis by simp
qed

section \<open>Recording and live transcription (multi-file LectureUpload)\<close>

text \<open>
  What the browser answers when a recording starts: whether \<open>getUserMedia\<close> resolves,
  whether \<open>new MediaRecorder\<close> and \<open>start\<close> return, whether the speech recognition API
  exists (\<open>recognitionRef.current\<close> is set once, when the component mounts), and whether
  \<open>recognition.start()\<close> returns. Each of the calls throws otherwise, into the \<open>catch\<close>.
\<close>

record web_apis =
  getUserMedia_ok :: bool
  recorder_new_ok :: bool
  recorder_start_ok :: bool
  has_recognition :: bool
  recognition_start_ok :: bool

definition recording_failed :: "effect list" where
  "recording_failed =
     [ConsoleError ''Error starting recording:'',
      Toast ''Recording failed'' ''Please check your microphone permissions'' True]"

definition recording_started :: "effect list" where
  "recording_started =
     [Toast ''Recording started''
        ''Speak clearly into your microphone. Live transcription is active.'' False]"

definition startRecording :: "web_apis \<Rightarrow> upload_state \<Rightarrow> upload_state \<times> effect list" where
  "startRecording b s =
     (if \<not> getUserMedia_ok b then (s, recording_failed)
      else if \<not> recorder_new_ok b then (s, recording_failed)
      else
        (let s1 = s\<lparr>chunks := []\<rparr>
         in if \<not> recorder_start_ok b then (s1, recording_failed)
            else
              (let s2 = s1\<lparr>isRecording := True\<rparr>
               in if has_recognition b then
                    (if \<not> recognition_start_ok b then (s2, recording_failed)
                     else (s2\<lparr>isListening := True, form_transcript := []\<rparr>, recording_started))
                  else (s2, recording_started))))"

text \<open>
  A recognition event: \<open>resultIndex\<close> and the list of results, each with the transcript
  of its first alternative (the API gives every result at least one) and \<open>isFinal\<close>.
\<close>

record speech_result =
  transcript0 :: string
  isFinal :: bool

record speech_event =
  resultIndex :: nat
  results :: "speech_result list"

function onresult_loop :: "speech_result list \<Rightarrow> nat \<Rightarrow> string \<Rightarrow> string" where
  "onresult_loop rs i finalTranscript =
     (if i < length rs then
        (let transcriptSegment = transcript0 (rs ! i)
         in if isFinal (rs ! i) then
              onresult_loop rs (Suc i) (finalTranscript @ transcriptSegment @ '' '')
            else onresult_loop rs (Suc i) finalTranscript)
      else finalTranscript)"
  by pat_completeness auto
termination
  by (relation "measure (\<lambda>(rs, i, finalTranscript). length rs - i)") auto

declare onresult_loop.simps [simp del]

definition onresult :: "speech_event \<Rightarrow> upload_state \<Rightarrow> upload_state" where
  "onresult event s =
     (let finalTranscript = onresult_loop (results event) (resultIndex event) []
      in if finalTranscript \<noteq> [] then
           s\<lparr>form_transcript := form_transcript s @ finalTranscript\<rparr>
         else s)"

definition onerror :: "upload_state \<Rightarrow> upload_state" where
  "onerror s = s\<lparr>isListening := False\<rparr>"

definition onend :: "upload_state \<Rightarrow> upload_state" where
  "onend s = s\<lparr>isListening := False\<rparr>"

text \<open>
  The recorder's handlers: a non-empty chunk is kept; on stop the chunks become the blob,
  and \<open>objectUrl\<close> is what \<open>URL.createObjectURL\<close> returns for it. The handlers from
  here on are given by the state they leave; their toasts are left out.
\<close>

definition ondataavailable :: "blob \<Rightarrow> upload_state \<Rightarrow> upload_state" where
  "ondataavailable d s = (if bsize d > 0 then s\<lparr>chunks := chunks s @ [d]\<rparr> else s)"

definition onstop :: "string \<Rightarrow> upload_state \<Rightarrow> upload_state" where
  "onstop objectUrl s =
     s\<lparr>audioBlob := Some \<lparr>btype = ''audio/webm'', bsize = sum_list (map bsize (chunks s)),
                           bdata = concat (map bdata (chunks s))\<rparr>,
       audioUrl := Some objectUrl\<rparr>"

text \<open>
  \<open>stopRecording\<close>, called while a recorder exists (one exists after any start that got
  as far as setting \<open>isRecording\<close>).
\<close>

definition stopRecording :: "web_apis \<Rightarrow> upload_state \<Rightarrow> upload_state" where
  "stopRecording b s =
     (if isRecording s then
        (let s1 = s\<lparr>isRecording := False\<rparr>
         in if has_recognition b \<and> isListening s then s1\<lparr>isListening := False\<rparr> else s1)
      else s)"

text \<open>
  What can happen after the start of a recording, up to the next start: recognition and
  recorder events, a click on stop, and a submit of the form in some world \<open>env\<close>.
\<close>

datatype recording_event =
    Result speech_event
  | RecognitionError
  | RecognitionEnd
  | DataAvailable blob
  | RecorderStopped string
  | StopClicked
  | Submitted env

fun handle :: "web_apis \<Rightarrow> upload_state \<Rightarrow> recording_event \<Rightarrow> upload_state" where
  "handle b s (Result e) = onresult e s"
| "handle b s RecognitionError = onerror s"
| "handle b s RecognitionEnd = onend s"
| "handle b s (DataAvailable d) = ondataavailable d s"
| "handle b s (RecorderStopped u) = onstop u s"
| "handle b s StopClicked = stopRecording b s"
| "handle b s (Submitted env) = fst (handleSubmit env s)"

text \<open>
  The results an event delivers, and the text the claim expects for them. A submit
  that shows the success toast resets the form, the transcript with it; \<open>since_reset\<close>
  collects, along a list of events, the results delivered since the last such submit.
\<close>

fun delivered :: "recording_event \<Rightarrow> speech_result list" where
  "delivered (Result e) = drop (resultIndex e) (results e)"
| "delivered ev = []"

definition final_text :: "speech_result list \<Rightarrow> string" where
  "final_text rs = concat (map (\<lambda>r. transcript0 r @ '' '') (filter isFinal rs))"

fun resets :: "upload_state \<Rightarrow> recording_event \<Rightarrow> bool" where
  "resets s (Submitted env) = (success_toast \<in> set (snd (handleSubmit env s)))"
| "resets s ev = False"

fun since_reset ::
  "web_apis \<Rightarrow> upload_state \<Rightarrow> speech_result list \<Rightarrow> recording_event list
     \<Rightarrow> speech_result list" where
  "since_reset b s acc [] = acc"
| "since_reset b s acc (ev # evs) =
     since_reset b (handle b s ev) (if resets s ev then [] else acc @ delivered ev) evs"

fun is_submit :: "recording_event \<Rightarrow> bool" where
  "is_submit (Submitted env) = True"
| "is_submit ev = False"

lemma onresult_loop_closed:
  "onresult_loop rs i acc = acc @ final_text (drop i rs)"
proof (induction rs i acc rule: onresult_loop.induct)
  case (1 rs i acc)
  show ?case
  proof (cases "i < length rs")
    case False
    then show ?thesis by (subst onresult_loop.simps) (simp add: final_text_def)
  next
    case True
    then have d: "drop i rs = rs ! i # drop (Suc i) rs" by (simp add: Cons_nth_drop_Suc)
    show ?thesis
    proof (cases "isFinal (rs ! i)")
      case True
      with \<open>i < length rs\<close> "1.IH"(1) [OF \<open>i < length rs\<close> refl True] show ?thesis
        by (subst onresult_loop.simps) (simp add: d final_text_def)
    next
      case False
      with \<open>i < length rs\<close> "1.IH"(2) [OF \<open>i < length rs\<close> refl False] show ?thesis
        by (subst onresult_loop.simps) (simp add: d final_text_def)
    qed
  qed
qed

lemma final_text_append [simp]: "final_text (a @ b) = final_text a @ final_text b"
  by (simp add: final_text_def)

lemma final_text_Nil [simp]: "final_text [] = []"
  by (simp add: final_text_def)

lemma submit_try_Inr:
  assumes "submit_try env s = (Inr s', tr)"
  shows "success_toast \<in> set tr \<and> s' = reset_form s"
proof (cases "insert_result env (insert_row env s)")
  case (Ok lec)
  obtain r tr1 where l: "upload_loop env (id lec) (clock_base s) (fileUploads env s) 0 []
      [Insert (insert_row env s), SetUploadProgress 30] = (r, tr1)"
    by (cases "upload_loop env (id lec) (clock_base s) (fileUploads env s) 0 []
      [Insert (insert_row env s), SetUploadProgress 30]") auto
  show ?thesis
  proof (cases r)
    case (Inl e)
    with assms Ok l show ?thesis by (simp add: submit_try_def)
  next
    case (Inr urls)
    obtain o' tr2 where u: "set_audio_url env (id lec) urls = (o', tr2)"
      by (cases "set_audio_url env (id lec) urls") auto
    show ?thesis
    proof (cases o')
      case None
      with assms Ok l Inr u show ?thesis by (auto simp: submit_try_def)
    next
      case (Some e)
      with assms Ok l Inr u show ?thesis by (simp add: submit_try_def)
    qed
  qed
next
  case (Err e)
  with assms show ?thesis by (simp add: submit_try_def)
next
  case (Rejected e)
  with assms show ?thesis by (simp add: submit_try_def)
qed

lemma handleSubmit_transcript:
  "form_transcript (fst (handleSubmit env s)) =
     (if success_toast \<in> set (snd (handleSubmit env s)) then [] else form_transcript s)"
proof (cases "valid_form s")
  case False
  then show ?thesis by (auto simp: valid_form_def handleSubmit_def)
next
  case True
  obtain r tr where t: "submit_try env s = (r, tr)" by (cases "submit_try env s") auto
  show ?thesis
  proof (cases r)
    case (Inl e)
    have "success_toast \<notin> set (snd (handleSubmit env s))"
    proof
      assume "success_toast \<in> set (snd (handleSubmit env s))"
      then obtain lec where "valid_form s"
        and "insert_result env (insert_row env s) = Ok lec"
        and "first_failure env (id lec) (clock_base s) (fileUploads env s) 0 = None"
        and "handleSubmit env s =
       ((reset_form s)\<lparr>uploading := False, uploadProgress := 0\<rparr>,
        [SetUploading True, SetUploadProgress 0, Insert (insert_row env s), SetUploadProgress 30] @
        steps env (id lec) (clock_base s) (fileUploads env s) [0..<length (fileUploads env s)] @
        [GetPublicUrl (path_of (attempt env (id lec) (clock_base s) (fileUploads env s) 0)),
         Update (id lec) [(''audio_url'', JStr (public_url env
            (path_of (attempt env (id lec) (clock_base s) (fileUploads env s) 0))))],
         SetUploadProgress 100, success_toast, SetUploading False, SetUploadProgress 0])"
        by (rule success_trace)
      then have "failure_toast \<notin> set (snd (handleSubmit env s))"
        by (simp add: steps_no_toast failure_toast_def success_toast_def)
      moreover have "failure_toast \<in> set (snd (handleSubmit env s))"
        using True t Inl by (auto simp: handleSubmit_def valid_form_def)
      ultimately show False by simp
    qed
    moreover have "form_transcript (fst (handleSubmit env s)) = form_transcript s"
      using True t Inl by (auto simp: handleSubmit_def valid_form_def)
    ultimately show ?thesis by simp
  next
    case (Inr s')
    with submit_try_Inr t have "success_toast \<in> set tr" "s' = reset_form s" by blast+
    with True t Inr show ?thesis
      by (auto simp: handleSubmit_def valid_form_def reset_form_def)
  qed
qed

lemma onresult_transcript:
  "form_transcript (onresult e s) =
     form_transcript s @ final_text (drop (resultIndex e) (results e))"
  by (simp add: onresult_def onresult_loop_closed Let_def)

lemma handle_transcript:
  "form_transcript (handle b s ev) =
     (if resets s ev then [] else form_transcript s @ final_text (delivered ev))"
  by (cases ev)
    (simp_all add: onresult_def onresult_loop_closed Let_def onerror_def onend_def
      ondataavailable_def onstop_def stopRecording_def handleSubmit_transcript)

lemma foldl_handle_transcript:
  "form_transcript s = final_text acc \<Longrightarrow>
   form_transcript (foldl (handle b) s evs) = final_text (since_reset b s acc evs)"
proof (induction evs arbitrary: s acc)
  case Nil
  then show ?case by simp
next
  case (Cons ev evs)
  have "form_transcript (handle b s ev) =
      final_text (if resets s ev then [] else acc @ delivered ev)"
    using Cons.prems by (simp add: handle_transcript)
  from Cons.IH [OF this] show ?case by simp
qed

lemma since_reset_no_submit:
  "\<forall>ev\<in>set evs. \<not> is_submit ev \<Longrightarrow>
   since_reset b s acc evs = acc @ concat (map delivered evs)"
proof (induction evs arbitrary: s acc)
  case Nil
  then show ?case by simp
next
  case (Cons ev evs)
  then have "\<not> resets s ev" by (cases ev) auto
  with Cons show ?case by simp
qed

text \<open>
  Claim C6, as the code has it. When the speech recognition API exists and every call
  of \<open>startRecording\<close> returns, starting a recording clears the transcript. After any
  events since then, the transcript is the concatenation, in arrival order, of the final
  results delivered (from \<open>resultIndex\<close> on) since the start or since the last submit that
  showed the success toast, each followed by one space; results that are not final add
  nothing. With no submit among the events these are all the results delivered.
\<close>

theorem live_transcript:
  assumes "getUserMedia_ok b" "recorder_new_ok b" "recorder_start_ok b"
    "has_recognition b" "recognition_start_ok b"
  shows "form_transcript (fst (startRecording b s)) = [] \<and>
    form_transcript (foldl (handle b) (fst (startRecording b s)) evs) =
      concat (map (\<lambda>r. transcript0 r @ '' '')
        (filter isFinal (since_reset b (fst (startRecording b s)) [] evs))) \<and>
    ((\<forall>ev\<in>set evs. \<not> is_submit ev) \<longrightarrow>
     form_transcript (foldl (handle b) (fst (startRecording b s)) evs) =
       concat (map (\<lambda>r. transcript0 r @ '' '') (filter isFinal (concat (map delivered evs)))))"
proof -
  have c: "form_transcript (fst (startRecording b s)) = []"
    using assms by (simp add: startRecording_def Let_def)
  then have "form_transcript (fst (startRecording b s)) = final_text []" by simp
  then have f: "form_transcript (foldl (handle b) (fst (startRecording b s)) evs) =
      final_text (since_reset b (fst (startRecording b s)) [] evs)"
    by (rule foldl_handle_transcript)
  have "form_transcript (foldl (handle b) (fst (startRecording b s)) evs) =
      final_text (concat (map delivered evs))"
    if "\<forall>ev\<in>set evs. \<not> is_submit ev"
    using f since_reset_no_submit [OF that, of b "fst (startRecording b s)" "[]"] by simp
  with c f show ?thesis by (simp add: final_text_def)
qed

definition mic :: web_apis where
  "mic = \<lparr>getUserMedia_ok = True, recorder_new_ok = True, recorder_start_ok = True,
          has_recognition = True, recognition_start_ok = True\<rparr>"

definition hello_interim :: speech_event where
  "hello_interim = \<lparr>resultIndex = 0, results = [\<lparr>transcript0 = ''hel'', isFinal = False\<rparr>]\<rparr>"

definition hello_final :: speech_event where
  "hello_final = \<lparr>resultIndex = 0, results = [\<lparr>transcript0 = ''hello'', isFinal = True\<rparr>]\<rparr>"

definition world_final :: speech_event where
  "world_final =
     \<lparr>resultIndex = 1,
      results = [\<lparr>transcript0 = ''hello'', isFinal = True\<rparr>,
                 \<lparr>transcript0 = ''world'', isFinal = True\<rparr>,
                 \<lparr>transcript0 = ''ag'', isFinal = False\<rparr>]\<rparr>"

lemmas speech_defs = hello_interim_def hello_final_def world_final_def

text \<open>The form after a start with \<open>mic\<close> and the final result \<open>hello\<close>, and its submit.\<close>

lemma recording_form:
  "onresult hello_final (fst (startRecording mic demo_form)) =
     demo_form\<lparr>isRecording := True, isListening := True, form_transcript := ''hello ''\<rparr>"
  by (simp add: startRecording_def mic_def Let_def onresult_def onresult_loop.simps
      hello_final_def demo_form_def)

lemma recording_submit:
  "success_toast \<in> set (snd (handleSubmit demo_env
      (demo_form\<lparr>isRecording := True, isListening := True, form_transcript := ''hello ''\<rparr>)))"
  by (simp add: handleSubmit_def submit_try_def upload_loop.simps set_audio_url_def
      insert_row_def fileUploads_def clock_base_def fileName_def show_nat.simps digit_char_def
      trim_def isWhiteSpace_def js_or_null_def Let_def demo_defs)

theorem live_transcript_witness:
  "form_transcript demo_form = ''hello '' \<and>
   form_transcript (fst (startRecording mic demo_form)) = [] \<and>
   form_transcript
     (foldl (handle mic) (fst (startRecording mic demo_form))
        [Result hello_interim, Result hello_final, RecognitionError, Result world_final,
         StopClicked]) = ''hello world '' \<and>
   form_transcript
     (foldl (handle mic) (fst (startRecording mic demo_form))
        [Result hello_final, Submitted demo_env, Result world_final]) = ''world ''"
proof -
  have b: "getUserMedia_ok mic" "recorder_new_ok mic" "recorder_start_ok mic"
    "has_recognition mic" "recognition_start_ok mic"
    by (simp_all add: mic_def)
  have st: "fst (startRecording mic demo_form) =
      demo_form\<lparr>chunks := [], isRecording := True, isListening := True, form_transcript := []\<rparr>"
    by (simp add: startRecording_def mic_def Let_def)
  have sr: "since_reset mic (fst (startRecording mic demo_form)) []
      [Result hello_final, Submitted demo_env, Result world_final] =
      [\<lparr>transcript0 = ''world'', isFinal = True\<rparr>, \<lparr>transcript0 = ''ag'', isFinal = False\<rparr>]"
    by (simp add: recording_form recording_submit) (simp add: speech_defs)
  have a: "form_transcript
     (foldl (handle mic) (fst (startRecording mic demo_form))
        [Result hello_interim, Result hello_final, RecognitionError, Result world_final,
         StopClicked]) = ''hello world ''"
    using live_transcript [OF b, of demo_form
      "[Result hello_interim, Result hello_final, RecognitionError, Result world_final,
        StopClicked]"]
    by (simp add: speech_defs)
  have c: "form_transcript
     (foldl (handle mic) (fst (startRecording mic demo_form))
        [Result hello_final, Submitted demo_env, Result world_final]) = ''world ''"
    using live_transcript [OF b, of demo_form
      "[Result hello_final, Submitted demo_env, Result world_final]"]
    by (simp only: sr) simp
  from live_transcript [OF b, of demo_form "[]"] a c show ?thesis
    by (simp add: demo_form_def)
qed

text \<open>
  Claim C6 as stated fails in two ways. When \<open>recognition.start()\<close> throws, the recorder
  is already running and \<open>isRecording\<close> is set, but the transcript is not cleared, and a
  later final result is appended to the old text. And a submit during the recording
  clears the transcript, so what follows is not the text of all final results since the
  start.
\<close>

theorem live_transcript_counterexample:
  "isRecording (fst (startRecording (mic\<lparr>recognition_start_ok := False\<rparr>) demo_form)) \<and>
   form_transcript (fst (startRecording (mic\<lparr>recognition_start_ok := False\<rparr>) demo_form)) =
     ''hello '' \<and>
   form_transcript
     (foldl (handle (mic\<lparr>recognition_start_ok := False\<rparr>))
        (fst (startRecording (mic\<lparr>recognition_start_ok := False\<rparr>) demo_form))
        [Result world_final]) = ''hello world '' \<and>
   concat (map (\<lambda>r. transcript0 r @ '' '')
     (filter isFinal (concat (map delivered [Result world_final])))) = ''world '' \<and>
   form_transcript
     (foldl (handle mic) (fst (startRecording mic demo_form))
        [Result hello_final, Submitted demo_env, Result world_final]) = ''world '' \<and>
   concat (map (\<lambda>r. transcript0 r @ '' '')
     (filter isFinal (concat (map delivered
        [Result hello_final, Submitted demo_env, Result world_final])))) = ''hello world ''"
proof -
  have "form_transcript
     (foldl (handle mic) (fst (startRecording mic demo_form))
        [Result hello_final, Submitted demo_env, Result world_final]) =
      final_text (drop (resultIndex world_final) (results world_final))"
    by (simp add: recording_form onresult_transcript handleSubmit_transcript recording_submit)
  then have sub: "form_transcript
     (foldl (handle mic) (fst (startRecording mic demo_form))
        [Result hello_final, Submitted demo_env, Result world_final]) = ''world ''"
    by (simp add: final_text_def world_final_def)
  have thrown: "fst (startRecording (mic\<lparr>recognition_start_ok := False\<rparr>) demo_form) =
      demo_form\<lparr>chunks := [], isRecording := True\<rparr>"
    by (simp add: startRecording_def mic_def Let_def)
  have old: "form_transcript
     (foldl (handle (mic\<lparr>recognition_start_ok := False\<rparr>))
        (demo_form\<lparr>chunks := [], isRecording := True\<rparr>) [Result world_final]) =
      ''hello world ''"
    by (simp add: onresult_transcript final_text_def world_final_def demo_form_def)
  have texts: "concat (map (\<lambda>r. transcript0 r @ '' '')
     (filter isFinal (concat (map delivered [Result world_final])))) = ''world ''"
    "concat (map (\<lambda>r. transcript0 r @ '' '')
     (filter isFinal (concat (map delivered
        [Result hello_final, Submitted demo_env, Result world_final])))) = ''hello world ''"
    by (simp_all add: speech_defs)
  show ?thesis
    unfolding thrown using sub old texts by (simp add: demo_form_def)
qed


section \<open>Student-facing fetches\<close>

text \<open>
  A query on the \<open>lectures\<close> table as the components build it: \<open>.eq(column, value)\<close>
  adds an equality filter, \<open>.order('created_at', {ascending: false})\<close> asks for the
  newest first. The remote service answers it from its rows: a row passes when every
  filter holds of it (a null column equals nothing), or the service reports an error.
  \<open>.single()\<close> is an error unless exactly one row passes.
\<close>

record query =
  eq_filters :: "(string \<times> string) list"
  newest_first :: bool

definition from_lectures :: query where
  "from_lectures = \<lparr>eq_filters = [], newest_first = False\<rparr>"

definition eq_filter :: "string \<Rightarrow> string \<Rightarrow> query \<Rightarrow> query" where
  "eq_filter c v q = q\<lparr>eq_filters := eq_filters q @ [(c, v)]\<rparr>"

definition order_created_at_desc :: "query \<Rightarrow> query" where
  "order_created_at_desc q = q\<lparr>newest_first := True\<rparr>"

definition column :: "string \<Rightarrow> lecture \<Rightarrow> string option" where
  "column c l =
     (if c = ''id'' then Some (id l)
      else if c = ''title'' then Some (title l)
      else if c = ''description'' then description l
      else if c = ''transcript'' then transcript l
      else if c = ''audio_url'' then audio_url l
      else if c = ''status'' then Some (status l)
      else if c = ''created_at'' then Some (created_at l)
      else if c = ''updated_at'' then Some (updated_at l)
      else if c = ''teacher_id'' then Some (teacher_id l)
      else None)"

definition passes :: "query \<Rightarrow> lecture \<Rightarrow> bool" where
  "passes q l = list_all (\<lambda>(c, v). column c l = Some v) (eq_filters q)"

record student_note =
  student_id :: string
  lecture_id :: string

record remote =
  lecture_rows :: "lecture list"
  lectures_error :: "string option"
  note_rows :: "student_note list"
  notes_error :: "string option"

definition select_lectures :: "remote \<Rightarrow> query \<Rightarrow> lecture list option outcome" where
  "select_lectures r q =
     (case lectures_error r of
        Some e \<Rightarrow> Err e
      | None \<Rightarrow>
          (let rows = filter (passes q) (lecture_rows r)
           in Ok (Some (if newest_first q then rev (sort_key created_at rows) else rows))))"

definition select_single :: "remote \<Rightarrow> query \<Rightarrow> lecture outcome" where
  "select_single r q =
     (case lectures_error r of
        Some e \<Rightarrow> Err e
      | None \<Rightarrow>
          (case filter (passes q) (lecture_rows r) of
             [l] \<Rightarrow> Ok l
           | rows \<Rightarrow> Err ''PGRST116''))"

definition select_notes :: "remote \<Rightarrow> string \<Rightarrow> student_note list option outcome" where
  "select_notes r uid =
     (case notes_error r of
        Some e \<Rightarrow> Err e
      | None \<Rightarrow> Ok (Some (filter (\<lambda>n. student_id n = uid) (note_rows r))))"

subsection \<open>LectureBrowser.fetchLectures\<close>

definition browser_init :: browser_state where
  "browser_init = \<lparr>lectures = [], filteredLectures = [], loading = True, searchTerm = []\<rparr>"

definition published_newest_first :: query where
  "published_newest_first =
     order_created_at_desc (eq_filter ''status'' ''published'' from_lectures)"

definition fetchLectures :: "remote \<Rightarrow> browser_state \<Rightarrow> browser_state \<times> effect list" where
  "fetchLectures r s =
     (case select_lectures r published_newest_first of
        Ok data \<Rightarrow>
          (s\<lparr>lectures := (case data of None \<Rightarrow> [] | Some rows \<Rightarrow> rows), loading := False\<rparr>, [])
      | Err e \<Rightarrow>
          (s\<lparr>loading := False\<rparr>,
           [ConsoleError e, Toast ''Error'' ''Failed to load lectures'' True])
      | Rejected e \<Rightarrow>
          (s\<lparr>loading := False\<rparr>,
           [ConsoleError e, Toast ''Error'' ''Failed to load lectures'' True]))"

subsection \<open>StudentDashboard.fetchStats\<close>

record student_stats =
  available_lectures :: nat
  completed_notes :: nat
  recent_lectures :: "lecture list"
  recommended_lectures :: "lecture list"

record dashboard_state =
  stats :: student_stats
  dash_loading :: bool

definition dashboard_init :: dashboard_state where
  "dashboard_init =
     \<lparr>stats = \<lparr>available_lectures = 0, completed_notes = 0, recent_lectures = [],
                recommended_lectures = []\<rparr>,
      dash_loading = True\<rparr>"

text \<open>\<open>fetchStats\<close> runs only once a user is signed in; \<open>uid\<close> is that user's id.\<close>

definition fetchStats :: "remote \<Rightarrow> string \<Rightarrow> dashboard_state \<Rightarrow> dashboard_state \<times> effect list" where
  "fetchStats r uid s =
     (case select_lectures r published_newest_first of
        Err e \<Rightarrow> (s\<lparr>dash_loading := False\<rparr>, [ConsoleError e])
      | Rejected e \<Rightarrow> (s\<lparr>dash_loading := False\<rparr>, [ConsoleError e])
      | Ok lecs \<Rightarrow>
          (case select_notes r uid of
             Err e \<Rightarrow> (s\<lparr>dash_loading := False\<rparr>, [ConsoleError e])
           | Rejected e \<Rightarrow> (s\<lparr>dash_loading := False\<rparr>, [ConsoleError e])
           | Ok notes \<Rightarrow>
               (s\<lparr>stats :=
                    \<lparr>available_lectures = (case lecs of None \<Rightarrow> 0 | Some ls \<Rightarrow> length ls),
                     completed_notes = (case notes of None \<Rightarrow> 0 | Some ns \<Rightarrow> length ns),
                     recent_lectures = (case lecs of None \<Rightarrow> [] | Some ls \<Rightarrow> take 5 ls),
                     recommended_lectures = (case lecs of None \<Rightarrow> [] | Some ls \<Rightarrow> take 3 ls)\<rparr>,
                  dash_loading := False\<rparr>, [])))"

subsection \<open>LectureViewer.fetchLectureData\<close>

record viewer_state =
  v_lecture :: "lecture option"
  v_loading :: bool
  isPlaying :: bool

definition viewer_init :: viewer_state where
  "viewer_init = \<lparr>v_lecture = None, v_loading = True, isPlaying = False\<rparr>"

definition fetchLectureData :: "remote \<Rightarrow> string \<Rightarrow> viewer_state \<Rightarrow> viewer_state \<times> effect list" where
  "fetchLectureData r lectureId s =
     (case select_single r
             (eq_filter ''status'' ''published'' (eq_filter ''id'' lectureId from_lectures)) of
        Ok lectureData \<Rightarrow> (s\<lparr>v_lecture := Some lectureData, v_loading := False\<rparr>, [])
      | Err e \<Rightarrow>
          (s\<lparr>v_loading := False\<rparr>,
           [ConsoleError e, Toast ''Error'' ''Failed to load lecture content'' True])
      | Rejected e \<Rightarrow>
          (s\<lparr>v_loading := False\<rparr>,
           [ConsoleError e, Toast ''Error'' ''Failed to load lecture content'' True]))"

subsection \<open>Only published rows reach a student\<close>

definition published :: "lecture \<Rightarrow> bool" where
  "published l = (status l = ''published'')"

lemma column_status: "column ''status'' l = Some (status l)"
  by (simp add: column_def)

lemma column_id: "column ''id'' l = Some (id l)"
  by (simp add: column_def)

lemma passes_published_newest_first:
  "passes published_newest_first l = published l"
  by (simp add: passes_def eq_filter_def column_status published_def published_newest_first_def
      order_created_at_desc_def from_lectures_def)

lemma passes_published_by_id:
  "passes (eq_filter ''status'' ''published'' (eq_filter ''id'' i from_lectures)) l =
     (id l = i \<and> published l)"
  by (simp add: passes_def eq_filter_def column_status column_id published_def from_lectures_def)

lemma select_lectures_published:
  assumes "select_lectures r published_newest_first = Ok (Some rows)"
  shows "set rows = {l \<in> set (lecture_rows r). published l} \<and>
         length rows = length (filter published (lecture_rows r))"
proof (cases "lectures_error r")
  case None
  have nf: "newest_first published_newest_first"
    by (simp add: published_newest_first_def order_created_at_desc_def)
  from assms None nf
  have "rows = rev (sort_key created_at (filter (passes published_newest_first) (lecture_rows r)))"
    by (simp add: select_lectures_def Let_def)
  moreover have "filter (passes published_newest_first) (lecture_rows r) =
      filter published (lecture_rows r)"
    by (simp add: passes_published_newest_first cong: filter_cong)
  ultimately show ?thesis by auto
next
  case (Some e)
  with assms show ?thesis by (simp add: select_lectures_def)
qed

lemma select_lectures_Some:
  "select_lectures r q = Ok data \<Longrightarrow> \<exists>rows. data = Some rows"
  by (cases "lectures_error r") (auto simp: select_lectures_def Let_def)

lemma select_single_published:
  assumes "select_single r (eq_filter ''status'' ''published'' (eq_filter ''id'' i from_lectures)) = Ok l"
  shows "l \<in> set (lecture_rows r) \<and> published l \<and> id l = i"
proof (cases "lectures_error r")
  case (Some e)
  with assms show ?thesis by (simp add: select_single_def)
next
  case None
  let ?q = "eq_filter ''status'' ''published'' (eq_filter ''id'' i from_lectures)"
  have "filter (passes ?q) (lecture_rows r) = [l]"
  proof (cases "filter (passes ?q) (lecture_rows r)")
    case Nil
    with assms None show ?thesis by (simp add: select_single_def)
  next
    case (Cons x xs)
    with assms None show ?thesis by (cases xs) (simp_all add: select_single_def)
  qed
  then have "l \<in> set (filter (passes ?q) (lecture_rows r))" by simp
  then show ?thesis by (simp add: passes_published_by_id)
qed


lemma fetchLectures_lectures:
  "lectures (fst (fetchLectures r s)) = lectures s \<or>
   set (lectures (fst (fetchLectures r s))) = {l \<in> set (lecture_rows r). published l}"
proof (cases "select_lectures r published_newest_first")
  case (Ok data)
  then obtain rows where d: "data = Some rows" using select_lectures_Some by blast
  with Ok have "set rows = {l \<in> set (lecture_rows r). published l}"
    using select_lectures_published by blast
  with Ok d show ?thesis by (simp add: fetchLectures_def)
next
  case (Err e)
  then show ?thesis by (simp add: fetchLectures_def)
next
  case (Rejected e)
  then show ?thesis by (simp add: fetchLectures_def)
qed

lemma fetchStats_lists:
  "stats (fst (fetchStats r uid s)) = stats s \<or>
   (\<exists>rows. set rows = {l \<in> set (lecture_rows r). published l} \<and>
      length rows = length (filter published (lecture_rows r)) \<and>
      available_lectures (stats (fst (fetchStats r uid s))) = length rows \<and>
      recent_lectures (stats (fst (fetchStats r uid s))) = take 5 rows \<and>
      recommended_lectures (stats (fst (fetchStats r uid s))) = take 3 rows)"
proof (cases "select_lectures r published_newest_first")
  case (Ok data)
  then obtain rows where d: "data = Some rows" using select_lectures_Some by blast
  with Ok have rows: "set rows = {l \<in> set (lecture_rows r). published l}"
    "length rows = length (filter published (lecture_rows r))"
    using select_lectures_published by blast+
  show ?thesis
  proof (cases "select_notes r uid")
    case (Ok ns)
    with \<open>select_lectures r published_newest_first = Ok data\<close> d rows show ?thesis
      by (intro disjI2 exI [of _ rows]) (simp add: fetchStats_def)
  next
    case (Err e)
    with \<open>select_lectures r published_newest_first = Ok data\<close> show ?thesis
      by (simp add: fetchStats_def)
  next
    case (Rejected e)
    with \<open>select_lectures r published_newest_first = Ok data\<close> show ?thesis
      by (simp add: fetchStats_def)
  qed
next
  case (Err e)
  then show ?thesis by (simp add: fetchStats_def)
next
  case (Rejected e)
  then show ?thesis by (simp add: fetchStats_def)
qed

lemma fetchLectureData_lecture:
  "v_lecture (fst (fetchLectureData r i s)) = v_lecture s \<or>
   (\<exists>l. v_lecture (fst (fetchLectureData r i s)) = Some l \<and>
        l \<in> set (lecture_rows r) \<and> published l \<and> id l = i)"
proof (cases "select_single r
             (eq_filter ''status'' ''published'' (eq_filter ''id'' i from_lectures))")
  case (Ok l)
  from select_single_published [OF Ok] Ok show ?thesis
    by (simp add: fetchLectureData_def)
next
  case (Err e)
  then show ?thesis by (simp add: fetchLectureData_def)
next
  case (Rejected e)
  then show ?thesis by (simp add: fetchLectureData_def)
qed

lemma filterLectures_subset:
  "set (filteredLectures (filterLectures s)) \<subseteq> set (lectures s)"
  by (auto simp: filterLectures_def)

text \<open>
  Claim C1. Whatever the table holds, after \<open>fetchLectures\<close>, \<open>fetchStats\<close> or
  \<open>fetchLectureData\<close> on a freshly mounted component every lecture in the lectures list
  (and so in the filtered list that is shown), in the dashboard's recent and recommended
  lists, and the viewer's loaded lecture is a row of the table with status
  \<open>published\<close>; the dashboard's count is at most the number of such rows. A later fetch
  keeps that: from a state that holds published lectures only it leads to such a state.
\<close>

theorem student_fetches_only_published:
  "(\<forall>l\<in>set (lectures (fst (fetchLectures r browser_init))).
      l \<in> set (lecture_rows r) \<and> status l = ''published'') \<and>
   (\<forall>l\<in>set (filteredLectures (filterLectures (fst (fetchLectures r browser_init)))).
      l \<in> set (lecture_rows r) \<and> status l = ''published'') \<and>
   (\<forall>l\<in>set (recent_lectures (stats (fst (fetchStats r uid dashboard_init)))) \<union>
         set (recommended_lectures (stats (fst (fetchStats r uid dashboard_init)))).
      l \<in> set (lecture_rows r) \<and> status l = ''published'') \<and>
   available_lectures (stats (fst (fetchStats r uid dashboard_init))) \<in>
     {0, length (filter (\<lambda>l. status l = ''published'') (lecture_rows r))} \<and>
   (\<forall>l. v_lecture (fst (fetchLectureData r i viewer_init)) = Some l \<longrightarrow>
      l \<in> set (lecture_rows r) \<and> status l = ''published'' \<and> id l = i) \<and>
   ((\<forall>l\<in>set (lectures s). status l = ''published'') \<longrightarrow>
    (\<forall>l\<in>set (lectures (fst (fetchLectures r s))). status l = ''published'')) \<and>
   ((\<forall>l\<in>set (recent_lectures (stats d)) \<union> set (recommended_lectures (stats d)).
        status l = ''published'') \<longrightarrow>
    (\<forall>l\<in>set (recent_lectures (stats (fst (fetchStats r uid d)))) \<union>
          set (recommended_lectures (stats (fst (fetchStats r uid d)))).
        status l = ''published'')) \<and>
   ((\<forall>l. v_lecture v = Some l \<longrightarrow> status l = ''published'') \<longrightarrow>
    (\<forall>l. v_lecture (fst (fetchLectureData r i v)) = Some l \<longrightarrow> status l = ''published''))"
proof (intro conjI)
  have b: "\<forall>l\<in>set (lectures (fst (fetchLectures r browser_init))).
      l \<in> set (lecture_rows r) \<and> status l = ''published''"
    using fetchLectures_lectures [of r browser_init]
    by (auto simp: browser_init_def published_def)
  then show "\<forall>l\<in>set (lectures (fst (fetchLectures r browser_init))).
      l \<in> set (lecture_rows r) \<and> status l = ''published''" .
  show "\<forall>l\<in>set (filteredLectures (filterLectures (fst (fetchLectures r browser_init)))).
      l \<in> set (lecture_rows r) \<and> status l = ''published''"
    using b filterLectures_subset [of "fst (fetchLectures r browser_init)"] by blast
next
  have t: "set (take n rows) \<subseteq> set rows" for n and rows :: "lecture list"
    by (rule set_take_subset)
  show "\<forall>l\<in>set (recent_lectures (stats (fst (fetchStats r uid dashboard_init)))) \<union>
         set (recommended_lectures (stats (fst (fetchStats r uid dashboard_init)))).
      l \<in> set (lecture_rows r) \<and> status l = ''published''"
    using fetchStats_lists [of r uid dashboard_init] t
    by (fastforce simp: dashboard_init_def published_def)
  have "published = (\<lambda>l. status l = ''published'')" by (simp add: published_def fun_eq_iff)
  then show "available_lectures (stats (fst (fetchStats r uid dashboard_init))) \<in>
     {0, length (filter (\<lambda>l. status l = ''published'') (lecture_rows r))}"
    using fetchStats_lists [of r uid dashboard_init]
    by (auto simp: dashboard_init_def)
  show "(\<forall>l\<in>set (recent_lectures (stats d)) \<union> set (recommended_lectures (stats d)).
        status l = ''published'') \<longrightarrow>
    (\<forall>l\<in>set (recent_lectures (stats (fst (fetchStats r uid d)))) \<union>
          set (recommended_lectures (stats (fst (fetchStats r uid d)))).
        status l = ''published'')"
    using fetchStats_lists [of r uid d] t
    by (fastforce simp: published_def)
next
  show "\<forall>l. v_lecture (fst (fetchLectureData r i viewer_init)) = Some l \<longrightarrow>
      l \<in> set (lecture_rows r) \<and> status l = ''published'' \<and> id l = i"
    using fetchLectureData_lecture [of r i viewer_init]
    by (auto simp: viewer_init_def published_def)
  show "(\<forall>l. v_lecture v = Some l \<longrightarrow> status l = ''published'') \<longrightarrow>
    (\<forall>l. v_lecture (fst (fetchLectureData r i v)) = Some l \<longrightarrow> status l = ''published'')"
    using fetchLectureData_lecture [of r i v]
    by (auto simp: published_def)
next
  show "(\<forall>l\<in>set (lectures s). status l = ''published'') \<longrightarrow>
    (\<forall>l\<in>set (lectures (fst (fetchLectures r s))). status l = ''published'')"
    using fetchLectures_lectures [of r s]
    by (auto simp: published_def)
qed

definition draft_lecture :: lecture where
  "draft_lecture =
     \<lparr>id = ''l3'', title = ''Unfinished'', description = None, transcript = None,
      audio_url = None, status = ''draft'', created_at = ''2024-01-03'',
      updated_at = ''2024-01-03'', teacher_id = ''t1''\<rparr>"

definition demo_remote :: remote where
  "demo_remote =
     \<lparr>lecture_rows = [history_lecture, draft_lecture, algebra_lecture], lectures_error = None,
      note_rows = [\<lparr>student_id = ''s1'', lecture_id = ''l1''\<rparr>], notes_error = None\<rparr>"

lemma demo_select:
  "select_lectures demo_remote published_newest_first =
     Ok (Some [algebra_lecture, history_lecture])"
  by code_simp

lemma demo_single:
  "select_single demo_remote
     (eq_filter ''status'' ''published'' (eq_filter ''id'' ''l3'' from_lectures)) = Err ''PGRST116''"
  "select_single demo_remote
     (eq_filter ''status'' ''published'' (eq_filter ''id'' ''l1'' from_lectures)) = Ok algebra_lecture"
  by code_simp+

theorem student_fetches_only_published_witness:
  "status draft_lecture = ''draft'' \<and> draft_lecture \<in> set (lecture_rows demo_remote) \<and>
   lectures (fst (fetchLectures demo_remote browser_init)) = [algebra_lecture, history_lecture] \<and>
   draft_lecture \<notin> set (lectures (fst (fetchLectures demo_remote browser_init))) \<and>
   recent_lectures (stats (fst (fetchStats demo_remote ''s1'' dashboard_init))) =
     [algebra_lecture, history_lecture] \<and>
   draft_lecture \<notin> set (recent_lectures (stats (fst (fetchStats demo_remote ''s1'' dashboard_init)))) \<and>
   available_lectures (stats (fst (fetchStats demo_remote ''s1'' dashboard_init))) = 2 \<and>
   v_lecture (fst (fetchLectureData demo_remote ''l3'' viewer_init)) = None \<and>
   v_lecture (fst (fetchLectureData demo_remote ''l1'' viewer_init)) = Some algebra_lecture"
proof -
  have d: "status draft_lecture = ''draft''" "draft_lecture \<in> set (lecture_rows demo_remote)"
    by (simp_all add: draft_lecture_def demo_remote_def)
  have l: "lectures (fst (fetchLectures demo_remote browser_init)) =
      [algebra_lecture, history_lecture]"
    by (simp add: fetchLectures_def demo_select)
  have n: "select_notes demo_remote ''s1'' = Ok (Some [\<lparr>student_id = ''s1'', lecture_id = ''l1''\<rparr>])"
    by (simp add: select_notes_def demo_remote_def)
  have s: "stats (fst (fetchStats demo_remote ''s1'' dashboard_init)) =
      \<lparr>available_lectures = 2, completed_notes = 1,
       recent_lectures = [algebra_lecture, history_lecture],
       recommended_lectures = [algebra_lecture, history_lecture]\<rparr>"
    by (simp add: fetchStats_def demo_select n)
  have v: "v_lecture (fst (fetchLectureData demo_remote ''l3'' viewer_init)) = None"
    "v_lecture (fst (fetchLectureData demo_remote ''l1'' viewer_init)) = Some algebra_lecture"
    by (simp_all add: fetchLectureData_def demo_single viewer_init_def)
  note t = student_fetches_only_published [of demo_remote "''s1''" "''l1''"]
  have ne: "status draft_lecture \<noteq> ''published''"
    by (simp add: draft_lecture_def)
  have "draft_lecture \<notin> set (lectures (fst (fetchLectures demo_remote browser_init)))"
  proof
    assume "draft_lecture \<in> set (lectures (fst (fetchLectures demo_remote browser_init)))"
    with t [THEN conjunct1] have "status draft_lecture = ''published''" by blast
    with ne show False by simp
  qed
  moreover have "draft_lecture \<notin>
      set (recent_lectures (stats (fst (fetchStats demo_remote ''s1'' dashboard_init))))"
  proof
    assume "draft_lecture \<in>
      set (recent_lectures (stats (fst (fetchStats demo_remote ''s1'' dashboard_init))))"
    with t [THEN conjunct2, THEN conjunct2, THEN conjunct1]
    have "status draft_lecture = ''published''" by blast
    with ne show False by simp
  qed
  ultimately show ?thesis using d l v by (simp add: s)
qed


section \<open>The entities as the components declare them\<close>

text \<open>
  The \<open>Lecture\<close> interface of LectureViewer, the \<open>Lecture\<close> interface of LectureBrowser and
  the \<open>LectureFile\<close> interface of LectureViewer, field by field (\<open>number\<close> is the file
  size, a natural number). A row of the table is read through an interface by keeping
  the columns the interface names.
\<close>

record viewer_lecture =
  vl_id :: string
  vl_title :: string
  vl_description :: "string option"
  vl_transcript :: "string option"
  vl_audio_url :: "string option"
  vl_created_at :: string
  vl_teacher_id :: string

record browser_lecture =
  bl_id :: string
  bl_title :: string
  bl_description :: "string option"
  bl_status :: string
  bl_created_at :: string
  bl_updated_at :: string
  bl_teacher_id :: string

record lecture_file =
  lf_id :: string
  file_name :: string
  file_path :: string
  file_type :: string
  mime_type :: string
  file_size :: nat
  is_primary :: bool

definition as_viewer :: "lecture \<Rightarrow> viewer_lecture" where
  "as_viewer l =
     \<lparr>vl_id = id l, vl_title = title l, vl_description = description l,
      vl_transcript = transcript l, vl_audio_url = audio_url l,
      vl_created_at = created_at l, vl_teacher_id = teacher_id l\<rparr>"

definition as_browser :: "lecture \<Rightarrow> browser_lecture" where
  "as_browser l =
     \<lparr>bl_id = id l, bl_title = title l, bl_description = description l,
      bl_status = status l, bl_created_at = created_at l, bl_updated_at = updated_at l,
      bl_teacher_id = teacher_id l\<rparr>"

text \<open>
  The claim's list for a lecture file: id, name, path, mime type, size and the primary
  flag.
\<close>

definition listed_fields :: "lecture_file \<Rightarrow> string \<times> string \<times> string \<times> string \<times> nat \<times> bool" where
  "listed_fields f = (lf_id f, file_name f, file_path f, mime_type f, file_size f, is_primary f)"

text \<open>
  Claim C7, as the code has it. A lecture is determined by what the viewer's and the
  browser's interfaces declare together, which is the claim's list: id, title,
  description, transcript, audio URL, status, owner and the two timestamps. Neither
  interface declares all of it: the viewer's leaves out status and \<open>updated_at\<close>, the
  browser's transcript and audio URL. A lecture file is determined by the claim's six
  fields together with \<open>file_type\<close>, which the interface declares besides \<open>mime_type\<close>.
\<close>

theorem entities_as_declared:
  "(as_viewer l = as_viewer l' \<and> as_browser l = as_browser l' \<longrightarrow> l = l') \<and>
   as_viewer (l\<lparr>status := x, updated_at := y\<rparr>) = as_viewer l \<and>
   as_browser (l\<lparr>transcript := t, audio_url := u\<rparr>) = as_browser l \<and>
   (listed_fields f = listed_fields g \<and> file_type f = file_type g \<longrightarrow> f = g)"
  by (cases l, cases l', cases f, cases g) (auto simp: as_viewer_def as_browser_def listed_fields_def)

definition slides_file :: lecture_file where
  "slides_file =
     \<lparr>lf_id = ''f1'', file_name = ''slides.pdf'', file_path = ''l1/slides.pdf'',
      file_type = ''document'', mime_type = ''application/pdf'', file_size = 2048,
      is_primary = True\<rparr>"

theorem entities_as_declared_witness:
  "as_viewer algebra_lecture =
     as_viewer (history_lecture\<lparr>id := ''l1'', title := ''Linear ALGEBRA'', description := None,
        created_at := ''2024-01-02'', updated_at := ''2024-01-02''\<rparr>) \<and>
   as_browser algebra_lecture =
     as_browser (history_lecture\<lparr>id := ''l1'', title := ''Linear ALGEBRA'', description := None,
        created_at := ''2024-01-02'', updated_at := ''2024-01-02''\<rparr>) \<and>
   algebra_lecture =
     history_lecture\<lparr>id := ''l1'', title := ''Linear ALGEBRA'', description := None,
        created_at := ''2024-01-02'', updated_at := ''2024-01-02''\<rparr> \<and>
   as_viewer (algebra_lecture\<lparr>status := ''draft'', updated_at := ''2024-02-01''\<rparr>) =
     as_viewer algebra_lecture \<and>
   as_browser (algebra_lecture\<lparr>transcript := Some ''text'', audio_url := None\<rparr>) =
     as_browser algebra_lecture \<and>
   listed_fields slides_file =
     listed_fields (slides_file\<lparr>file_type := ''pdf'', file_type := ''document''\<rparr>) \<and>
   slides_file = slides_file\<lparr>file_type := ''pdf'', file_type := ''document''\<rparr>"
proof -
  let ?l = "history_lecture\<lparr>id := ''l1'', title := ''Linear ALGEBRA'', description := None,
        created_at := ''2024-01-02'', updated_at := ''2024-01-02''\<rparr>"
  let ?g = "slides_file\<lparr>file_type := ''pdf'', file_type := ''document''\<rparr>"
  have a: "as_viewer algebra_lecture = as_viewer ?l \<and> as_browser algebra_lecture = as_browser ?l"
    by (simp add: as_viewer_def as_browser_def algebra_lecture_def history_lecture_def)
  have b: "listed_fields slides_file = listed_fields ?g \<and> file_type slides_file = file_type ?g"
    by (simp add: listed_fields_def slides_file_def)
  from entities_as_declared
    [where l = algebra_lecture and l' = ?l and x = "''draft''"
       and y = "''2024-02-01''" and t = "Some ''text''" and u = None
       and f = slides_file and g = ?g] a b
  show ?thesis by blast
qed

text \<open>
  Claim C7 as stated fails for lecture files: two files that agree on the six listed
  fields and differ in \<open>file_type\<close> are different values of the interface.
\<close>

theorem lecture_file_type_counterexample:
  "listed_fields slides_file = listed_fields (slides_file\<lparr>file_type := ''pdf''\<rparr>) \<and>
   slides_file \<noteq> slides_file\<lparr>file_type := ''pdf''\<rparr> \<and>
   file_type slides_file = ''document'' \<and> file_type (slides_file\<lparr>file_type := ''pdf''\<rparr>) = ''pdf''"
  by (simp add: listed_fields_def slides_file_def)

end
